theory Spec2Isabelle
  imports Complex_Main
begin

section \<open>Data model\<close>

text \<open>
  The three Mongoose models of the repository (User, Book, Request) as records, with the
  fields the request controller and the book controller read or write. An ObjectId is a
  natural number; the source compares ids through \<open>toString()\<close>, which is equality of ids.
  The database answers every query: connection failures do not occur. A JavaScript
  number is an exact rational: the rounding of IEEE doubles is left out.
\<close>

type_synonym oid = nat

text \<open>
  An id that arrives in a body or in a URL is a string. Mongoose casts it to an ObjectId
  when it queries, or throws a CastError (for \<open>abc\<close>, say), which the handler's
  \<open>catch\<close> answers with 500. \<open>createRequest\<close> and \<open>getRequestById\<close> take the
  parameter as it arrives; \<open>updateRequest\<close>, \<open>rateRequest\<close>, \<open>deleteRequest\<close> and
  \<open>deleteBook\<close> are modelled for a URL id that casts, and take the ObjectId.
\<close>

datatype idParam = ObjectId oid | Uncastable

text \<open>\<open>bookSchema.status\<close>: \<open>enum: ['Available', 'Not Available']\<close>.\<close>

datatype availability = Available | NotAvailable

text \<open>
  \<open>requestSchema.type\<close>: \<open>enum: ['free', 'exchange']\<close>, required. The schema of the
  route and the validator of \<open>Request.create\<close> both refuse any other value.
\<close>

datatype kind = Free | Exchange

record userDoc =
  u_name :: string
  u_ratingAverage :: rat
  u_ratingCount :: nat
  u_isActive :: bool

record bookDoc =
  b_title :: string
  b_owner :: oid
  b_status :: availability
  b_isActive :: bool

text \<open>The sub-document \<open>rating\<close> of a request.\<close>

record ratingDoc =
  requesterRating :: "rat option"
  ownerRating :: "rat option"
  requesterReview :: "string option"
  ownerReview :: "string option"

text \<open>
  A request. Its status is a string: the controller writes it with
  \<open>findByIdAndUpdate\<close>, which runs no schema validator, so the values \<open>rejected\<close> and
  \<open>cancelled\<close> are stored although the schema's enum lists only three.
\<close>

record requestDoc =
  r_requester :: oid
  r_book :: oid
  r_owner :: oid
  r_type :: kind
  r_status :: string
  r_offeredBooks :: "oid option"
  r_rating :: ratingDoc
  r_completedAt :: "nat option"

text \<open>
  A collection is the list of its documents with their \<open>_id\<close>, in insertion order.
  The store is the three collections.
\<close>

type_synonym 'a collection = "(oid \<times> 'a) list"

record store =
  users :: "userDoc collection"
  books :: "bookDoc collection"
  requests :: "requestDoc collection"

section \<open>Store operations\<close>

definition findById :: "'a collection \<Rightarrow> oid \<Rightarrow> 'a option" where
  "findById c i = map_of c i"

text \<open>\<open>Model.findOne(query)\<close>: the first document that matches.\<close>

definition findOne :: "'a collection \<Rightarrow> ('a \<Rightarrow> bool) \<Rightarrow> (oid \<times> 'a) option" where
  "findOne c q = find (\<lambda>(i, d). q d) c"

text \<open>
  \<open>Model.findOne({_id: id, ...})\<close>: an \<open>_id\<close> names at most one document, which
  is returned when it meets the rest of the query.
\<close>

definition findOneById :: "'a collection \<Rightarrow> oid \<Rightarrow> ('a \<Rightarrow> bool) \<Rightarrow> 'a option" where
  "findOneById c i q =
     (case findById c i of None \<Rightarrow> None | Some d \<Rightarrow> if q d then Some d else None)"

definition countDocuments :: "'a collection \<Rightarrow> ('a \<Rightarrow> bool) \<Rightarrow> nat" where
  "countDocuments c q = length (filter (\<lambda>(i, d). q d) c)"

text \<open>
  \<open>Model.findByIdAndUpdate(id, update)\<close>: the document with that id is updated; when
  there is none nothing is written and no error is raised.
\<close>

fun findByIdAndUpdate :: "'a collection \<Rightarrow> oid \<Rightarrow> ('a \<Rightarrow> 'a) \<Rightarrow> 'a collection" where
  "findByIdAndUpdate [] i f = []"
| "findByIdAndUpdate ((k, d) # c) i f =
     (if k = i then (k, f d) # c else (k, d) # findByIdAndUpdate c i f)"

fun findByIdAndDelete :: "'a collection \<Rightarrow> oid \<Rightarrow> 'a collection" where
  "findByIdAndDelete [] i = []"
| "findByIdAndDelete ((k, d) # c) i =
     (if k = i then c else (k, d) # findByIdAndDelete c i)"

text \<open>
  \<open>Model.create(doc)\<close> gives the document a new ObjectId: here the successor of the
  largest id of the collection.
\<close>

definition freshId :: "'a collection \<Rightarrow> oid" where
  "freshId c = Suc (foldr max (map fst c) 0)"

definition create :: "'a collection \<Rightarrow> 'a \<Rightarrow> 'a collection" where
  "create c d = c @ [(freshId c, d)]"

section \<open>Responses\<close>

text \<open>
  \<open>res.status(n).json({status: 'error', message})\<close> is \<open>Failure n message\<close>;
  \<open>res.status(n).json({status: 'success', data})\<close> is \<open>Success n data\<close> (\<open>res.json\<close>
  alone answers 200). An exception caught by the handler's \<open>catch\<close> is answered with 500
  and the exception's message: \<open>ServerError\<close>.
\<close>

datatype 'a response = Success nat 'a | Failure nat string | ServerError

section \<open>JavaScript values\<close>

text \<open>
  The \<open>rating\<close> of a body is a number or a string: \<open>Joi.number()\<close> accepts a string
  that it can convert to a number, and \<open>validate\<close> looks at the error only, so the
  controller receives \<open>req.body\<close> unconverted. Every other JSON value is refused by
  the schema of the route.
\<close>

datatype jsValue = JNum rat | JStr string

text \<open>
  \<open>String(x)\<close> for a number in plain decimal notation. A number whose decimal expansion
  does not end is printed to 20 places, where the source prints the digits of the double.
\<close>

definition digitChar :: "nat \<Rightarrow> char" where
  "digitChar d = ''0123456789'' ! d"

function natDigits :: "nat \<Rightarrow> string" where
  "natDigits n = (if n < 10 then [digitChar n] else natDigits (n div 10) @ [digitChar (n mod 10)])"
  by pat_completeness auto
termination
  by (relation "measure id") auto

fun fracDigits :: "nat \<Rightarrow> rat \<Rightarrow> string" where
  "fracDigits 0 f = []"
| "fracDigits (Suc k) f =
     (if f = 0 then []
      else digitChar (nat \<lfloor>f * 10\<rfloor>) # fracDigits k (f * 10 - of_int \<lfloor>f * 10\<rfloor>))"

definition unsignedToString :: "rat \<Rightarrow> string" where
  "unsignedToString x =
     natDigits (nat \<lfloor>x\<rfloor>)
     @ (if x = of_int \<lfloor>x\<rfloor> then [] else ''.'' @ fracDigits 20 (x - of_int \<lfloor>x\<rfloor>))"

definition jsToString :: "rat \<Rightarrow> string" where
  "jsToString x = (if x < 0 then ''-'' @ unsignedToString (- x) else unsignedToString x)"

text \<open>
  \<open>Number(s)\<close> for a string: white space around it is dropped, the empty string is 0,
  a decimal literal with an optional sign, fraction and exponent is its value, and
  anything else is \<open>NaN\<close>, here \<open>None\<close>. Hexadecimal, octal and binary literals and
  \<open>Infinity\<close> are left out.
\<close>

definition isDigit :: "char \<Rightarrow> bool" where
  "isDigit c = (48 \<le> (of_char c :: nat) \<and> (of_char c :: nat) \<le> 57)"

definition isSpace :: "char \<Rightarrow> bool" where
  "isSpace c = ((of_char c :: nat) \<in> set [9, 10, 11, 12, 13, 32])"

definition digitsValue :: "string \<Rightarrow> nat" where
  "digitsValue ds = foldl (\<lambda>a c. 10 * a + (of_char c - 48)) 0 ds"

definition trim :: "string \<Rightarrow> string" where
  "trim s = rev (dropWhile isSpace (rev (dropWhile isSpace s)))"

definition signed :: "string \<Rightarrow> bool \<times> string" where
  "signed s =
     (case s of
        [] \<Rightarrow> (False, s)
      | c # r \<Rightarrow> if c = CHR ''-'' then (True, r)
                 else if c = CHR ''+'' then (False, r) else (False, s))"

definition exponentPart :: "string \<Rightarrow> int option" where
  "exponentPart s =
     (case s of
        [] \<Rightarrow> Some 0
      | c # r \<Rightarrow>
          if c = CHR ''e'' \<or> c = CHR ''E'' then
            (let (neg, ds) = signed r
             in if ds \<noteq> [] \<and> list_all isDigit ds
                then Some (if neg then - int (digitsValue ds) else int (digitsValue ds))
                else None)
          else None)"

definition scale :: "rat \<Rightarrow> int \<Rightarrow> rat" where
  "scale x e = (if 0 \<le> e then x * 10 ^ nat e else x / 10 ^ nat (- e))"

definition decimalLiteral :: "string \<Rightarrow> rat option" where
  "decimalLiteral s =
     (let (neg, u) = signed s;
          ip = takeWhile isDigit u;
          r1 = dropWhile isDigit u;
          fp = (case r1 of [] \<Rightarrow> [] | c # r \<Rightarrow> if c = CHR ''.'' then takeWhile isDigit r else []);
          r2 = (case r1 of [] \<Rightarrow> [] | c # r \<Rightarrow> if c = CHR ''.'' then dropWhile isDigit r else r1)
      in if ip = [] \<and> fp = [] then None
         else (case exponentPart r2 of
                 None \<Rightarrow> None
               | Some e \<Rightarrow>
                   (let m = scale (of_nat (digitsValue ip)
                                   + of_nat (digitsValue fp) / 10 ^ length fp) e
                    in Some (if neg then - m else m))))"

definition jsToNumber :: "string \<Rightarrow> rat option" where
  "jsToNumber s = (if trim s = [] then Some 0 else decimalLiteral (trim s))"

text \<open>
  The number that \<open>Joi.number()\<close> converts a string to: its pattern is the decimal
  literal, with white space around it. Its refusal of a string with more digits than a
  double holds is left out.
\<close>

definition joiNumber :: "string \<Rightarrow> rat option" where
  "joiNumber s = decimalLiteral (trim s)"

text \<open>
  \<open>x + v\<close> for a number \<open>x\<close>: the sum when \<open>v\<close> is a number, the concatenation of
  \<open>String(x)\<close> and \<open>v\<close> when \<open>v\<close> is a string. \<open>v / n\<close>: \<open>v\<close> is converted to a
  number first; \<open>None\<close> is \<open>NaN\<close>.
\<close>

definition jsPlus :: "rat \<Rightarrow> jsValue \<Rightarrow> jsValue" where
  "jsPlus x v = (case v of JNum y \<Rightarrow> JNum (x + y) | JStr t \<Rightarrow> JStr (jsToString x @ t))"

definition jsDivide :: "jsValue \<Rightarrow> nat \<Rightarrow> rat option" where
  "jsDivide v n =
     (case v of
        JNum x \<Rightarrow> Some (x / of_nat n)
      | JStr t \<Rightarrow> (case jsToNumber t of None \<Rightarrow> None | Some x \<Rightarrow> Some (x / of_nat n)))"

text \<open>
  Mongoose's cast of a value assigned to a path of type Number: a number is itself, the
  empty string is \<open>null\<close>, another string is \<open>Number(s)\<close>, and \<open>NaN\<close> does not cast.
  The outer \<open>None\<close> is the cast error, which \<open>save()\<close> reports.
\<close>

definition castNumber :: "jsValue \<Rightarrow> rat option option" where
  "castNumber v =
     (case v of
        JNum x \<Rightarrow> Some (Some x)
      | JStr t \<Rightarrow> if t = [] then Some None
                  else (case jsToNumber t of None \<Rightarrow> None | Some x \<Rightarrow> Some (Some x)))"

section \<open>The request controller: updateRequest\<close>

text \<open>
  The object literal \<open>validTransitions\<close>. A status that is not one of its keys reads
  \<open>undefined\<close>, and \<open>undefined.includes\<close> throws.
\<close>

definition validTransitions :: "string \<Rightarrow> string list option" where
  "validTransitions = map_of
     [(''pending'', [''accepted'', ''rejected'', ''cancelled'']),
      (''accepted'', [''completed'', ''cancelled'']),
      (''rejected'', []),
      (''completed'', []),
      (''cancelled'', [])]"

text \<open>
  The authorization block of \<open>updateRequest\<close>: the 403 message when the caller may not
  ask for this status, \<open>None\<close> when the handler goes on. The body's \<open>status\<close> is
  \<open>None\<close> when the key is absent.
\<close>

definition authorize :: "requestDoc \<Rightarrow> oid \<Rightarrow> string option \<Rightarrow> string option" where
  "authorize request user status =
     (if status = Some ''accepted'' \<or> status = Some ''rejected'' then
        (if r_owner request \<noteq> user
         then Some ''Only book owner can accept or reject requests'' else None)
      else if status = Some ''cancelled'' then
        (if r_requester request \<noteq> user
         then Some ''Only requester can cancel the request'' else None)
      else if status = Some ''completed'' then
        (if r_requester request \<noteq> user \<and> r_owner request \<noteq> user
         then Some ''Not authorized to update this request'' else None)
      else None)"

text \<open>How a template literal prints the body's status.\<close>

definition render :: "string option \<Rightarrow> string" where
  "render status = (case status of None \<Rightarrow> ''undefined'' | Some v \<Rightarrow> v)"

text \<open>
  The book updates that follow the update of the request. \<open>request\<close> is the document
  read at the start of the handler, before its status was written.
\<close>

definition updateBooks :: "requestDoc \<Rightarrow> string \<Rightarrow> bookDoc collection \<Rightarrow> bookDoc collection" where
  "updateBooks request status bs =
     (if status = ''accepted'' then
        findByIdAndUpdate bs (r_book request) (\<lambda>b. b\<lparr>b_status := NotAvailable\<rparr>)
      else if status = ''completed'' then
        (case r_type request of
           Free \<Rightarrow>
             findByIdAndUpdate bs (r_book request)
               (\<lambda>b. b\<lparr>b_status := NotAvailable, b_owner := r_requester request\<rparr>)
         | Exchange \<Rightarrow>
             (let bs1 = findByIdAndUpdate bs (r_book request)
                          (\<lambda>b. b\<lparr>b_status := NotAvailable, b_owner := r_requester request\<rparr>)
              in case r_offeredBooks request of
                   None \<Rightarrow> bs1
                 | Some offered \<Rightarrow>
                     findByIdAndUpdate bs1 offered
                       (\<lambda>b. b\<lparr>b_status := NotAvailable, b_owner := r_owner request\<rparr>)))
      else bs)"

text \<open>
  \<open>updateRequest\<close>, called by the authenticated user \<open>user\<close> (\<open>req.user.id\<close>) for the
  request \<open>rid\<close> (\<open>req.params.id\<close>) with the body's \<open>status\<close>, at time \<open>now\<close>
  (\<open>new Date()\<close>). The body's \<open>meetingDetails\<close> is left out: the request schema has no
  such path, so the update does not store it. The answer carries the updated request.
\<close>

definition updateRequest ::
  "store \<Rightarrow> oid \<Rightarrow> oid \<Rightarrow> string option \<Rightarrow> nat \<Rightarrow> requestDoc option response \<times> store" where
  "updateRequest s user rid status now =
     (case findById (requests s) rid of
        None \<Rightarrow> (Failure 404 ''Request not found'', s)
      | Some request \<Rightarrow>
          (case authorize request user status of
             Some msg \<Rightarrow> (Failure 403 msg, s)
           | None \<Rightarrow>
               (case validTransitions (r_status request) of
                  None \<Rightarrow> (ServerError, s)
                | Some allowed \<Rightarrow>
                    (case status of
                       None \<Rightarrow>
                         (Failure 400 (''Cannot change status from '' @ r_status request
                                       @ '' to '' @ render status), s)
                     | Some st \<Rightarrow>
                         if st \<notin> set allowed then
                           (Failure 400 (''Cannot change status from '' @ r_status request
                                         @ '' to '' @ render status), s)
                         else
                           (let requests' = findByIdAndUpdate (requests s) rid
                                  (\<lambda>r. if st = ''completed''
                                       then r\<lparr>r_status := st, r_completedAt := Some now\<rparr>
                                       else r\<lparr>r_status := st\<rparr>);
                                books' = updateBooks request st (books s)
                            in (Success 200 (findById requests' rid),
                                s\<lparr>requests := requests', books := books'\<rparr>))))))"

section \<open>The request controller: createRequest\<close>

text \<open>The sub-document \<open>rating\<close> of a new request: no path is set.\<close>

definition noRating :: ratingDoc where
  "noRating = \<lparr>requesterRating = None, ownerRating = None,
               requesterReview = None, ownerReview = None\<rparr>"

text \<open>
  \<open>Request.create(requestData)\<close> and the 201 answer with the new document. The schema
  defaults \<open>status\<close> to \<open>pending\<close>. The unique partial index on
  (requester, book, status = pending) cannot reject the insert: the handler has just
  looked for such a request and found none.
\<close>

definition insertRequest ::
  "store \<Rightarrow> requestDoc \<Rightarrow> (oid \<times> requestDoc) response \<times> store" where
  "insertRequest s requestData =
     (Success 201 (freshId (requests s), requestData),
      s\<lparr>requests := create (requests s) requestData\<rparr>)"

text \<open>
  \<open>createRequest\<close>, called by \<open>user\<close> with the body \<open>{book, type, offeredBooks}\<close>.
  \<open>offeredBooks\<close> is \<open>None\<close> when the key is absent or the empty string, which
  \<open>!offeredBooks\<close> takes for absent. \<open>Book.findById\<close> throws when \<open>book\<close> does not
  cast, and \<open>Book.findOne\<close> when \<open>offeredBooks\<close> does not.
\<close>

definition createRequest ::
  "store \<Rightarrow> oid \<Rightarrow> idParam \<Rightarrow> kind \<Rightarrow> idParam option
     \<Rightarrow> (oid \<times> requestDoc) response \<times> store" where
  "createRequest s user book type offeredBooks =
     (case book of
        Uncastable \<Rightarrow> (ServerError, s)
      | ObjectId bookId \<Rightarrow>
     (case findById (books s) bookId of
        None \<Rightarrow> (Failure 404 ''Book not found'', s)
      | Some book \<Rightarrow>
          if \<not> b_isActive book then (Failure 404 ''Book not found'', s)
          else if b_status book \<noteq> Available then
            (Failure 400 ''Book is not available for requests'', s)
          else if b_owner book = user then
            (Failure 400 ''You cannot request your own book'', s)
          else if findOne (requests s)
                    (\<lambda>r. r_requester r = user \<and> r_book r = bookId \<and> r_status r = ''pending'')
                  \<noteq> None then
            (Failure 400 ''You already have a pending request for this book'', s)
          else
            (let requestData = \<lparr>r_requester = user, r_book = bookId, r_owner = b_owner book,
                                 r_type = type, r_status = ''pending'', r_offeredBooks = None,
                                 r_rating = noRating, r_completedAt = None\<rparr>
             in case type of
                  Exchange \<Rightarrow>
                    (case offeredBooks of
                       None \<Rightarrow> (Failure 400 ''Exchange requests must include an offered book'', s)
                     | Some Uncastable \<Rightarrow> (ServerError, s)
                     | Some (ObjectId offered) \<Rightarrow>
                         (case findOneById (books s) offered
                                 (\<lambda>b. b_owner b = user \<and> b_isActive b \<and> b_status b = Available) of
                            None \<Rightarrow> (Failure 400 ''Offered book is not valid or not available'', s)
                          | Some userBook \<Rightarrow>
                              insertRequest s (requestData\<lparr>r_offeredBooks := Some offered\<rparr>)))
                | Free \<Rightarrow> insertRequest s requestData)))"

section \<open>The request controller: getRequestById\<close>

text \<open>
  \<open>populate\<close> replaces a user reference by the user's document, or by \<open>null\<close> when no
  such user exists; the handler then reads \<open>_id\<close> of the result, which throws on \<open>null\<close>.
\<close>

definition populate :: "userDoc collection \<Rightarrow> oid \<Rightarrow> oid option" where
  "populate us i = (case findById us i of None \<Rightarrow> None | Some u \<Rightarrow> Some i)"

text \<open>
  \<open>getRequestById\<close>, called by \<open>user\<close> for the id \<open>rid\<close> of the URL;
  \<open>Request.findById\<close> throws when the id does not cast.
\<close>

definition getRequestById :: "store \<Rightarrow> oid \<Rightarrow> idParam \<Rightarrow> requestDoc response \<times> store" where
  "getRequestById s user rid =
     (case rid of
        Uncastable \<Rightarrow> (ServerError, s)
      | ObjectId i \<Rightarrow>
     (case findById (requests s) i of
        None \<Rightarrow> (Failure 404 ''Request not found'', s)
      | Some request \<Rightarrow>
          (case populate (users s) (r_requester request) of
             None \<Rightarrow> (ServerError, s)
           | Some requesterId \<Rightarrow>
               if requesterId \<noteq> user then
                 (case populate (users s) (r_owner request) of
                    None \<Rightarrow> (ServerError, s)
                  | Some ownerId \<Rightarrow>
                      if ownerId \<noteq> user
                      then (Failure 403 ''Not authorized to view this request'', s)
                      else (Success 200 request, s))
               else (Success 200 request, s))))"

section \<open>The request controller: rateRequest\<close>

text \<open>
  \<open>userSchema.methods.updateRating\<close>, with its \<open>this.save()\<close>. \<open>totalRating\<close> is a sum
  when \<open>newRating\<close> is a number and a concatenation when it is a string. \<open>save()\<close>
  rejects the document, here \<open>None\<close>, when the new average is \<open>NaN\<close> or outside the
  schema's bounds 0 and 5.
\<close>

definition updateRating :: "userDoc \<Rightarrow> jsValue \<Rightarrow> userDoc option" where
  "updateRating u newRating =
     (let totalRating = jsPlus (u_ratingAverage u * of_nat (u_ratingCount u)) newRating;
          count = u_ratingCount u + 1
      in case jsDivide totalRating count of
           None \<Rightarrow> None
         | Some average \<Rightarrow>
             if 0 \<le> average \<and> average \<le> 5
             then Some (u\<lparr>u_ratingCount := count, u_ratingAverage := average\<rparr>)
             else None)"

text \<open>The test \<open>if (request.rating.requesterRating)\<close>: set and not zero.\<close>

definition truthy :: "rat option \<Rightarrow> bool" where
  "truthy v = (case v of None \<Rightarrow> False | Some x \<Rightarrow> x \<noteq> 0)"

text \<open>
  \<open>rateRequestSchema\<close>, the schema of the route: \<open>rating\<close> is a number between 1 and
  5, or a string that Joi converts to one; \<open>review\<close> is optional, not empty and of at
  most 500 characters.
\<close>

definition rateRequestSchema :: "jsValue \<Rightarrow> string option \<Rightarrow> bool" where
  "rateRequestSchema rating review =
     ((case rating of
         JNum x \<Rightarrow> 1 \<le> x \<and> x \<le> 5
       | JStr t \<Rightarrow> (case joiNumber t of None \<Rightarrow> False | Some x \<Rightarrow> 1 \<le> x \<and> x \<le> 5))
      \<and> (case review of None \<Rightarrow> True | Some t \<Rightarrow> t \<noteq> [] \<and> length t \<le> 500))"

text \<open>
  The validators that \<open>request.save()\<close> runs on the two paths it has set: a rating
  between 1 and 5 (a \<open>null\<close> passes) and a review of at most 500 characters.
\<close>

definition ratingPathsValid :: "rat option \<Rightarrow> string option \<Rightarrow> bool" where
  "ratingPathsValid stored review =
     ((case stored of None \<Rightarrow> True | Some x \<Rightarrow> 1 \<le> x \<and> x \<le> 5)
      \<and> (case review of None \<Rightarrow> True | Some t \<Rightarrow> length t \<le> 500))"

text \<open>
  What the two branches of \<open>rateRequest\<close> do after the already-rated test, for the
  counterparty \<open>other\<close> and the assignment \<open>assign\<close> to the request's \<open>rating\<close>:
  \<open>User.findById\<close>, whose \<open>null\<close> makes the call of \<open>updateRating\<close> throw;
  \<open>updateRating\<close>, which saves the user or throws; \<open>request.save()\<close>, which saves the
  request or throws, the user being saved already; and the answer with the request's
  \<open>rating\<close>.
\<close>

definition submitRating ::
  "store \<Rightarrow> oid \<Rightarrow> oid \<Rightarrow> jsValue \<Rightarrow> string option \<Rightarrow> (rat option \<Rightarrow> ratingDoc)
     \<Rightarrow> ratingDoc response \<times> store" where
  "submitRating s rid other rating review assign =
     (case findById (users s) other of
        None \<Rightarrow> (ServerError, s)
      | Some u \<Rightarrow>
          (case updateRating u rating of
             None \<Rightarrow> (ServerError, s)
           | Some u' \<Rightarrow>
               (let s1 = s\<lparr>users := findByIdAndUpdate (users s) other (\<lambda>v. u')\<rparr>
                in case castNumber rating of
                     None \<Rightarrow> (ServerError, s1)
                   | Some stored \<Rightarrow>
                       if \<not> ratingPathsValid stored review then (ServerError, s1)
                       else (Success 200 (assign stored),
                             s1\<lparr>requests := findByIdAndUpdate (requests s) rid
                                                (\<lambda>r. r\<lparr>r_rating := assign stored\<rparr>)\<rparr>))))"

text \<open>\<open>rateRequest\<close>, called by \<open>user\<close> with the body \<open>{rating, review}\<close>.\<close>

definition rateRequest ::
  "store \<Rightarrow> oid \<Rightarrow> oid \<Rightarrow> jsValue \<Rightarrow> string option \<Rightarrow> ratingDoc response \<times> store" where
  "rateRequest s user rid rating review =
     (case findById (requests s) rid of
        None \<Rightarrow> (Failure 404 ''Request not found'', s)
      | Some request \<Rightarrow>
          if r_status request \<noteq> ''completed'' then
            (Failure 400 ''Can only rate completed requests'', s)
          else
            (let isRequester = (r_requester request = user);
                 isOwner = (r_owner request = user)
             in if \<not> isRequester \<and> \<not> isOwner then
                  (Failure 403 ''Not authorized to rate this request'', s)
                else if isRequester then
                  (if truthy (requesterRating (r_rating request)) then
                     (Failure 400 ''You have already rated this request'', s)
                   else
                     submitRating s rid (r_owner request) rating review
                       (\<lambda>stored. (r_rating request)
                            \<lparr>requesterRating := stored, requesterReview := review\<rparr>))
                else
                  (if truthy (ownerRating (r_rating request)) then
                     (Failure 400 ''You have already rated this request'', s)
                   else
                     submitRating s rid (r_requester request) rating review
                       (\<lambda>stored. (r_rating request)
                            \<lparr>ownerRating := stored, ownerReview := review\<rparr>))))"

section \<open>The request controller: deleteRequest\<close>

definition deleteRequest :: "store \<Rightarrow> oid \<Rightarrow> oid \<Rightarrow> unit response \<times> store" where
  "deleteRequest s user rid =
     (case findById (requests s) rid of
        None \<Rightarrow> (Failure 404 ''Request not found'', s)
      | Some request \<Rightarrow>
          if r_requester request \<noteq> user then
            (Failure 403 ''Not authorized to delete this request'', s)
          else if r_status request \<notin> set [''cancelled'', ''rejected''] then
            (Failure 400 ''Can only delete cancelled or rejected requests'', s)
          else
            (Success 200 (), s\<lparr>requests := findByIdAndDelete (requests s) rid\<rparr>))"

section \<open>The book controller: deleteBook\<close>

definition deleteBook :: "store \<Rightarrow> oid \<Rightarrow> oid \<Rightarrow> unit response \<times> store" where
  "deleteBook s user bid =
     (case findById (books s) bid of
        None \<Rightarrow> (Failure 404 ''Book not found'', s)
      | Some book \<Rightarrow>
          if b_owner book \<noteq> user then
            (Failure 403 ''Not authorized to delete this book'', s)
          else if countDocuments (requests s)
                    (\<lambda>r. r_book r = bid \<and> r_status r = ''pending'') > 0 then
            (Failure 400 ''Cannot delete book with pending requests'', s)
          else
            (Success 200 (),
             s\<lparr>books := findByIdAndUpdate (books s) bid
                           (\<lambda>b. b\<lparr>b_isActive := False, b_status := NotAvailable\<rparr>)\<rparr>))"

section \<open>The route PUT /api/requests/:id\<close>

text \<open>
  \<open>updateRequestSchema\<close>: \<open>status\<close> is optional, and when present one of \<open>accepted\<close>
  and \<open>completed\<close>. \<open>validate(schema)\<close> answers 400 with Joi's message for the first
  violation and does not call the controller.
\<close>

definition updateRequestSchema :: "string option \<Rightarrow> string option" where
  "updateRequestSchema status =
     (case status of
        None \<Rightarrow> None
      | Some v \<Rightarrow>
          if v \<in> set [''accepted'', ''completed''] then None
          else Some ([CHR 0x22] @ ''status'' @ [CHR 0x22]
                     @ '' must be one of [accepted, completed]''))"

text \<open>\<open>router.route('/:id').put(auth, validate(updateRequestSchema), updateRequest)\<close>,
  for a caller that \<open>auth\<close> has let through as \<open>user\<close>.\<close>

definition putRequest ::
  "store \<Rightarrow> oid \<Rightarrow> oid \<Rightarrow> string option \<Rightarrow> nat \<Rightarrow> requestDoc option response \<times> store" where
  "putRequest s user rid status now =
     (case updateRequestSchema status of
        Some message \<Rightarrow> (Failure 400 message, s)
      | None \<Rightarrow> updateRequest s user rid status now)"

section \<open>The transition table of the specification\<close>

text \<open>
  The legal edges as the specification lists them, and the five statuses of a request.
\<close>

definition legalEdges :: "(string \<times> string) list" where
  "legalEdges =
     [(''pending'', ''accepted''), (''pending'', ''rejected''), (''pending'', ''cancelled''),
      (''accepted'', ''completed''), (''accepted'', ''cancelled'')]"

definition allStatuses :: "string list" where
  "allStatuses = [''pending'', ''accepted'', ''rejected'', ''completed'', ''cancelled'']"

section \<open>States reachable through the lifecycle operations\<close>

text \<open>
  The store starts with users and books and no request; the lifecycle operations are
  the four handlers that create, move, rate and delete a request, called by anyone
  with any arguments.
\<close>

inductive reachable :: "store \<Rightarrow> bool" where
  initial: "requests s = [] \<Longrightarrow> reachable s"
| created: "reachable s \<Longrightarrow> reachable (snd (createRequest s user book type offeredBooks))"
| updated: "reachable s \<Longrightarrow> reachable (snd (updateRequest s user rid status now))"
| rated: "reachable s \<Longrightarrow> reachable (snd (rateRequest s user rid rating review))"
| deleted: "reachable s \<Longrightarrow> reachable (snd (deleteRequest s user rid))"

text \<open>
  The middleware \<open>auth\<close> lets a call through when its token names a user that exists
  and is active. Every route of the lifecycle runs it first.
\<close>

definition authenticated :: "store \<Rightarrow> oid \<Rightarrow> bool" where
  "authenticated s user =
     (case findById (users s) user of None \<Rightarrow> False | Some u \<Rightarrow> u_isActive u)"

text \<open>
  The owner of every book, and the requester and the owner of every request, is a user
  of the store.
\<close>

definition ownersAreUsers :: "store \<Rightarrow> bool" where
  "ownersAreUsers s = (\<forall>(i, b) \<in> set (books s). findById (users s) (b_owner b) \<noteq> None)"

definition partiesAreUsers :: "store \<Rightarrow> bool" where
  "partiesAreUsers s =
     (\<forall>(i, r) \<in> set (requests s).
        findById (users s) (r_requester r) \<noteq> None \<and> findById (users s) (r_owner r) \<noteq> None)"

text \<open>
  The stores that the lifecycle routes reach: the books of the first store belong to
  users, and every call is made by an authenticated user.
\<close>

inductive served :: "store \<Rightarrow> bool" where
  opened: "requests s = [] \<Longrightarrow> ownersAreUsers s \<Longrightarrow> served s"
| asked: "served s \<Longrightarrow> authenticated s user
            \<Longrightarrow> served (snd (createRequest s user book type offeredBooks))"
| moved: "served s \<Longrightarrow> authenticated s user
            \<Longrightarrow> served (snd (updateRequest s user rid status now))"
| judged: "served s \<Longrightarrow> authenticated s user
            \<Longrightarrow> served (snd (rateRequest s user rid rating review))"
| dropped: "served s \<Longrightarrow> authenticated s user
            \<Longrightarrow> served (snd (deleteRequest s user rid))"

section \<open>The conditions of the specification\<close>

text \<open>
  The failure conditions of \<open>requestTransfer\<close>, in the words of the specification: the
  target book is absent or inactive; and the book is not available, or the requester
  owns it, or the requester already has a pending request for it, or the kind is
  exchange and no offered book is supplied. The code has one more condition: the
  offered id of an exchange casts and does not name an active, available book of the
  requester.
\<close>

definition targetNotFound :: "store \<Rightarrow> oid \<Rightarrow> bool" where
  "targetNotFound s bookId =
     (case findById (books s) bookId of None \<Rightarrow> True | Some b \<Rightarrow> \<not> b_isActive b)"

definition hasPending :: "store \<Rightarrow> oid \<Rightarrow> oid \<Rightarrow> bool" where
  "hasPending s user bookId =
     (\<exists>(i, r) \<in> set (requests s).
        r_requester r = user \<and> r_book r = bookId \<and> r_status r = ''pending'')"

definition specInvalidState :: "store \<Rightarrow> oid \<Rightarrow> oid \<Rightarrow> kind \<Rightarrow> idParam option \<Rightarrow> bool" where
  "specInvalidState s user bookId type offeredBooks =
     (case findById (books s) bookId of
        None \<Rightarrow> False
      | Some b \<Rightarrow>
          b_status b \<noteq> Available \<or> b_owner b = user \<or> hasPending s user bookId
          \<or> (type = Exchange \<and> offeredBooks = None))"

definition offeredInvalid :: "store \<Rightarrow> oid \<Rightarrow> kind \<Rightarrow> idParam option \<Rightarrow> bool" where
  "offeredInvalid s user type offeredBooks =
     (case offeredBooks of
        None \<Rightarrow> False
      | Some Uncastable \<Rightarrow> False
      | Some (ObjectId offered) \<Rightarrow>
          type = Exchange \<and>
          (case findById (books s) offered of
             None \<Rightarrow> True
           | Some b \<Rightarrow> b_owner b \<noteq> user \<or> \<not> b_isActive b \<or> b_status b \<noteq> Available))"

text \<open>A pending request whose target is the book: the query of \<open>deleteBook\<close>.\<close>

definition pendingTarget :: "store \<Rightarrow> oid \<Rightarrow> bool" where
  "pendingTarget s bid =
     (\<exists>(i, r) \<in> set (requests s). r_book r = bid \<and> r_status r = ''pending'')"

text \<open>The book with this id exists and is not available.\<close>

definition isNotAvailable :: "bookDoc collection \<Rightarrow> oid \<Rightarrow> bool" where
  "isNotAvailable bs i =
     (case findById bs i of None \<Rightarrow> False | Some b \<Rightarrow> b_status b = NotAvailable)"

text \<open>
  What the lifecycle operations keep true of every request: its target book exists;
  an exchange names an offered book, which exists; the target book of an accepted or
  completed request is not available; the offered book of a completed exchange is not
  available.
\<close>

definition requestInvariant :: "bookDoc collection \<Rightarrow> requestDoc \<Rightarrow> bool" where
  "requestInvariant bs r =
     (findById bs (r_book r) \<noteq> None
      \<and> (r_type r = Exchange \<longrightarrow>
            (case r_offeredBooks r of None \<Rightarrow> False | Some offered \<Rightarrow> findById bs offered \<noteq> None))
      \<and> (r_status r \<in> set [''accepted'', ''completed''] \<longrightarrow> isNotAvailable bs (r_book r))
      \<and> (r_status r = ''completed'' \<and> r_type r = Exchange \<longrightarrow>
            (case r_offeredBooks r of None \<Rightarrow> False | Some offered \<Rightarrow> isNotAvailable bs offered)))"

definition lifecycleInvariant :: "store \<Rightarrow> bool" where
  "lifecycleInvariant s = (\<forall>(i, r) \<in> set (requests s). requestInvariant (books s) r)"

section \<open>Example stores\<close>

text \<open>
  Alice (1) owns the book 10, Carol (2) owns the book 11, Dan (3) owns nothing.
  In \<open>exStore\<close>, Carol has asked Alice for the book 10; an exchange offers the book 11.
\<close>

definition exUsers :: "userDoc collection" where
  "exUsers =
     [(1, \<lparr>u_name = ''Alice'', u_ratingAverage = 0, u_ratingCount = 0, u_isActive = True\<rparr>),
      (2, \<lparr>u_name = ''Carol'', u_ratingAverage = 0, u_ratingCount = 0, u_isActive = True\<rparr>),
      (3, \<lparr>u_name = ''Dan'', u_ratingAverage = 0, u_ratingCount = 0, u_isActive = True\<rparr>)]"

definition exBooks :: "availability \<Rightarrow> bookDoc collection" where
  "exBooks av =
     [(10, \<lparr>b_title = ''Dune'', b_owner = 1, b_status = av, b_isActive = True\<rparr>),
      (11, \<lparr>b_title = ''Emma'', b_owner = 2, b_status = Available, b_isActive = True\<rparr>)]"

definition exRequest :: "kind \<Rightarrow> string \<Rightarrow> requestDoc" where
  "exRequest k st =
     \<lparr>r_requester = 2, r_book = 10, r_owner = 1, r_type = k, r_status = st,
      r_offeredBooks = (case k of Free \<Rightarrow> None | Exchange \<Rightarrow> Some 11),
      r_rating = noRating, r_completedAt = None\<rparr>"

definition exEmpty :: store where
  "exEmpty = \<lparr>users = exUsers, books = exBooks Available, requests = []\<rparr>"

definition exStore :: "kind \<Rightarrow> string \<Rightarrow> availability \<Rightarrow> store" where
  "exStore k st av = \<lparr>users = exUsers, books = exBooks av, requests = [(1, exRequest k st)]\<rparr>"

text \<open>Carol asks for an exchange and Alice accepts it.\<close>

definition exAccepted :: store where
  "exAccepted =
     snd (updateRequest
            (snd (createRequest exEmpty 2 (ObjectId 10) Exchange (Some (ObjectId 11))))
            1 1 (Some ''accepted'') 7)"

text \<open>
  Carol's request is completed, and an earlier rating of 1.5 has left Alice the average
  1.5 with count 1.
\<close>

definition exRated :: store where
  "exRated =
     \<lparr>users =
        [(1, \<lparr>u_name = ''Alice'', u_ratingAverage = 3 / 2, u_ratingCount = 1, u_isActive = True\<rparr>),
         (2, \<lparr>u_name = ''Carol'', u_ratingAverage = 0, u_ratingCount = 0, u_isActive = True\<rparr>)],
      books = exBooks NotAvailable,
      requests = [(1, exRequest Free ''completed'')]\<rparr>"

section \<open>Facts about the store operations\<close>

lemma findById_findByIdAndUpdate:
  "findById (findByIdAndUpdate c i f) k =
     (if k = i then map_option f (findById c i) else findById c k)"
  by (induction c i f rule: findByIdAndUpdate.induct) (auto simp: findById_def)

lemma set_findByIdAndUpdate:
  "(k, d') \<in> set (findByIdAndUpdate c i f) \<Longrightarrow>
     (k, d') \<in> set c \<or> (k = i \<and> (\<exists>d. findById c i = Some d \<and> d' = f d))"
  by (induction c i f rule: findByIdAndUpdate.induct) (auto simp: findById_def split: if_splits)

lemma keys_findByIdAndUpdate: "map fst (findByIdAndUpdate c i f) = map fst c"
  by (induction c i f rule: findByIdAndUpdate.induct) auto

lemma set_findByIdAndDelete: "set (findByIdAndDelete c i) \<subseteq> set c"
  by (induction c i rule: findByIdAndDelete.induct) auto

lemma findById_in_set: "findById c i = Some d \<Longrightarrow> (i, d) \<in> set c"
  by (simp add: findById_def map_of_SomeD)

lemma le_foldr_max: "k \<in> set ks \<Longrightarrow> k \<le> foldr max ks (0::nat)"
  by (induction ks) auto

lemma freshId_greater: "(k, d) \<in> set c \<Longrightarrow> k < freshId c"
  unfolding freshId_def using le_foldr_max [of k "map fst c"] by force

lemma findById_freshId: "findById c (freshId c) = None"
proof (cases "findById c (freshId c)")
  case None
  then show ?thesis .
next
  case (Some d)
  then have "(freshId c, d) \<in> set c" by (rule findById_in_set)
  then show ?thesis by (auto dest: freshId_greater)
qed

lemma findById_create:
  "findById (create c d) k = (if k = freshId c then Some d else findById c k)"
  using findById_freshId [of c]
  by (auto simp: create_def findById_def map_add_def split: option.splits)

lemma findOne_found: "findOne c q \<noteq> None \<longleftrightarrow> (\<exists>(i, d) \<in> set c. q d)"
  by (auto simp: findOne_def find_None_iff)

lemma countDocuments_positive: "0 < countDocuments c q \<longleftrightarrow> (\<exists>(i, d) \<in> set c. q d)"
  by (auto simp: countDocuments_def filter_empty_conv)

section \<open>The transition table of the code is the table of the specification\<close>

lemma validTransitions_edges:
  "validTransitions a = Some l \<Longrightarrow> b \<in> set l \<longleftrightarrow> (a, b) \<in> set legalEdges"
  by (auto simp: validTransitions_def legalEdges_def split: if_splits)

lemma validTransitions_known:
  "a \<in> set allStatuses \<Longrightarrow> \<exists>l. validTransitions a = Some l"
  by (auto simp: validTransitions_def allStatuses_def)

lemma completed_only_from_accepted:
  "validTransitions a = Some l \<Longrightarrow> ''completed'' \<in> set l \<Longrightarrow> a = ''accepted''"
  by (auto simp: validTransitions_def split: if_splits)

lemma validTransitions_targets:
  "validTransitions a = Some l \<Longrightarrow> st \<in> set l
   \<Longrightarrow> st \<in> set [''accepted'', ''rejected'', ''cancelled'', ''completed'']"
  by (auto simp: validTransitions_def split: if_splits)

section \<open>Facts about updateRequest\<close>

text \<open>
  A call that answers with a success has passed every check and has written the request
  and the books; a call that answers anything else has written nothing.
\<close>

lemma updateRequest_success:
  assumes "updateRequest s user rid status now = (Success c x, s')"
  shows "\<exists>r st l. findById (requests s) rid = Some r \<and> authorize r user status = None
           \<and> status = Some st \<and> validTransitions (r_status r) = Some l \<and> st \<in> set l
           \<and> c = 200 \<and> x = findById (requests s') rid
           \<and> requests s' = findByIdAndUpdate (requests s) rid
                 (\<lambda>r. if st = ''completed''
                      then r\<lparr>r_status := st, r_completedAt := Some now\<rparr>
                      else r\<lparr>r_status := st\<rparr>)
           \<and> books s' = updateBooks r st (books s) \<and> users s' = users s"
  using assms
  by (auto simp: updateRequest_def Let_def split: option.splits if_splits)

lemma updateRequest_failure:
  assumes "updateRequest s user rid status now = (resp, s')" and "\<forall>c x. resp \<noteq> Success c x"
  shows "s' = s"
  using assms
  by (auto simp: updateRequest_def Let_def split: option.splits if_splits)

lemma findById_updateBooks_accepted:
  "findById (updateBooks r ''accepted'' bs) k =
     (if k = r_book r then map_option (\<lambda>b. b\<lparr>b_status := NotAvailable\<rparr>) (findById bs k)
      else findById bs k)"
  by (simp add: updateBooks_def findById_findByIdAndUpdate)

lemma findById_updateBooks_completed_target:
  "r_offeredBooks r \<noteq> Some (r_book r) \<Longrightarrow>
   findById (updateBooks r ''completed'' bs) (r_book r) =
     map_option (\<lambda>b. b\<lparr>b_status := NotAvailable, b_owner := r_requester r\<rparr>)
       (findById bs (r_book r))"
  by (auto simp: updateBooks_def Let_def findById_findByIdAndUpdate
           split: kind.splits option.splits)

lemma findById_updateBooks_completed_offered:
  "r_type r = Exchange \<Longrightarrow> r_offeredBooks r = Some offered \<Longrightarrow>
   findById (updateBooks r ''completed'' bs) offered =
     map_option (\<lambda>b. b\<lparr>b_status := NotAvailable, b_owner := r_owner r\<rparr>) (findById bs offered)"
  by (cases "findById bs offered")
     (auto simp: updateBooks_def Let_def findById_findByIdAndUpdate)

lemma updateBooks_other:
  "st \<noteq> ''accepted'' \<Longrightarrow> st \<noteq> ''completed'' \<Longrightarrow> updateBooks r st bs = bs"
  by (simp add: updateBooks_def)

section \<open>Facts about createRequest\<close>

lemma findOne_pending: 
  "findOne (requests s)
     (\<lambda>r. r_requester r = user \<and> r_book r = bookId \<and> r_status r = ''pending'') \<noteq> None
   \<longleftrightarrow> hasPending s user bookId"
  unfolding findOne_found hasPending_def ..

lemma findOne_pending_None: 
  "findOne (requests s)
     (\<lambda>r. r_requester r = user \<and> r_book r = bookId \<and> r_status r = ''pending'') = None
   \<longleftrightarrow> \<not> hasPending s user bookId"
  using findOne_pending [of s user bookId] by blast

lemma createRequest_success:
  assumes "createRequest s user book type offeredBooks = (Success c (i, r), s')"
  shows "requests s' = create (requests s) r \<and> books s' = books s \<and> users s' = users s
       \<and> r_status r = ''pending'' \<and> r_requester r = user
       \<and> (\<exists>b. findById (books s) (r_book r) = Some b \<and> r_owner r = b_owner b)
       \<and> findById (books s) (r_book r) \<noteq> None
       \<and> (r_type r = Exchange \<longrightarrow>
            (case r_offeredBooks r of None \<Rightarrow> False
             | Some offered \<Rightarrow> findById (books s) offered \<noteq> None))"
  using assms
  by (auto simp: createRequest_def insertRequest_def findOneById_def Let_def
           split: option.splits if_splits kind.splits idParam.splits)

lemma createRequest_failure:
  assumes "createRequest s user book type offeredBooks = (resp, s')"
    and "\<forall>c x. resp \<noteq> Success c x"
  shows "s' = s"
  using assms
  by (auto simp: createRequest_def insertRequest_def Let_def
           split: option.splits if_splits kind.splits idParam.splits)

section \<open>Facts about rateRequest and deleteRequest\<close>

lemma submitRating_success:
  assumes "submitRating s rid other rating review assign = (Success c x, s')"
  shows "\<exists>u u' stored. findById (users s) other = Some u \<and> updateRating u rating = Some u'
           \<and> castNumber rating = Some stored \<and> ratingPathsValid stored review
           \<and> c = 200 \<and> x = assign stored
           \<and> users s' = findByIdAndUpdate (users s) other (\<lambda>v. u')
           \<and> requests s' = findByIdAndUpdate (requests s) rid (\<lambda>q. q\<lparr>r_rating := x\<rparr>)
           \<and> books s' = books s"
  using assms
  by (auto simp: submitRating_def Let_def split: option.splits if_splits)

lemma submitRating_store:
  "\<exists>x. books (snd (submitRating s rid other rating review assign)) = books s
     \<and> (requests (snd (submitRating s rid other rating review assign)) = requests s
        \<or> requests (snd (submitRating s rid other rating review assign))
            = findByIdAndUpdate (requests s) rid (\<lambda>q. q\<lparr>r_rating := x\<rparr>))"
  by (auto simp: submitRating_def Let_def split: option.splits if_splits)

lemma submitRating_users:
  "\<exists>u'. users (snd (submitRating s rid other rating review assign)) = users s
     \<or> users (snd (submitRating s rid other rating review assign))
         = findByIdAndUpdate (users s) other (\<lambda>v. u')"
  by (auto simp: submitRating_def Let_def split: option.splits if_splits)

lemma rateRequest_success:
  assumes "rateRequest s user rid rating review = (Success c x, s')"
    and "findById (requests s) rid = Some r"
  shows "r_status r = ''completed'' \<and> c = 200 \<and> books s' = books s
       \<and> (r_requester r \<noteq> user \<longrightarrow> r_owner r = user)
       \<and> (\<exists>u u' stored.
             findById (users s) (if r_requester r = user then r_owner r else r_requester r)
               = Some u
             \<and> updateRating u rating = Some u' \<and> castNumber rating = Some stored
             \<and> users s' = findByIdAndUpdate (users s)
                               (if r_requester r = user then r_owner r else r_requester r)
                               (\<lambda>v. u')
             \<and> x = (if r_requester r = user
                     then (r_rating r)\<lparr>requesterRating := stored, requesterReview := review\<rparr>
                     else (r_rating r)\<lparr>ownerRating := stored, ownerReview := review\<rparr>))
       \<and> requests s' = findByIdAndUpdate (requests s) rid (\<lambda>q. q\<lparr>r_rating := x\<rparr>)"
proof -
  from assms have st: "r_status r = ''completed''"
    by (auto simp: rateRequest_def Let_def split: if_splits)
  from assms have own: "r_requester r \<noteq> user \<Longrightarrow> r_owner r = user"
    by (auto simp: rateRequest_def Let_def split: if_splits)
  show ?thesis
  proof (cases "r_requester r = user")
    case True
    with assms st have "submitRating s rid (r_owner r) rating review
        (\<lambda>stored. (r_rating r)\<lparr>requesterRating := stored, requesterReview := review\<rparr>)
        = (Success c x, s')"
      by (auto simp: rateRequest_def Let_def split: if_splits)
    from submitRating_success [OF this] st True show ?thesis by auto
  next
    case False
    with assms st own have "submitRating s rid (r_requester r) rating review
        (\<lambda>stored. (r_rating r)\<lparr>ownerRating := stored, ownerReview := review\<rparr>)
        = (Success c x, s')"
      by (auto simp: rateRequest_def Let_def split: if_splits)
    from submitRating_success [OF this] st False own show ?thesis by auto
  qed
qed

lemma rateRequest_store:
  "\<exists>x. books (snd (rateRequest s user rid rating review)) = books s
     \<and> (requests (snd (rateRequest s user rid rating review)) = requests s
        \<or> requests (snd (rateRequest s user rid rating review))
            = findByIdAndUpdate (requests s) rid (\<lambda>q. q\<lparr>r_rating := x\<rparr>))"
proof (cases "\<exists>other assign. rateRequest s user rid rating review
                 = submitRating s rid other rating review assign")
  case True
  then show ?thesis using submitRating_store by metis
next
  case False
  then have "snd (rateRequest s user rid rating review) = s"
    by (auto simp: rateRequest_def Let_def split: option.splits if_splits)
  then show ?thesis by simp
qed

lemma rateRequest_users:
  "\<exists>other u'. users (snd (rateRequest s user rid rating review)) = users s
     \<or> users (snd (rateRequest s user rid rating review))
         = findByIdAndUpdate (users s) other (\<lambda>v. u')"
proof (cases "\<exists>other assign. rateRequest s user rid rating review
                 = submitRating s rid other rating review assign")
  case True
  then show ?thesis using submitRating_users by metis
next
  case False
  then have "snd (rateRequest s user rid rating review) = s"
    by (auto simp: rateRequest_def Let_def split: option.splits if_splits)
  then show ?thesis by simp
qed

lemma updateRating_number:
  assumes "updateRating u (JNum rating) = Some u'"
  shows "u' = u\<lparr>u_ratingCount := u_ratingCount u + 1,
                 u_ratingAverage := (u_ratingAverage u * of_nat (u_ratingCount u) + rating)
                                    / of_nat (u_ratingCount u + 1)\<rparr>"
  using assms
  by (auto simp: updateRating_def jsPlus_def jsDivide_def Let_def split: if_splits)

lemma rateRequest_already_rated:
  assumes "findById (requests s) rid = Some r" and "r_status r = ''completed''"
    and "if r_requester r = user then truthy (requesterRating (r_rating r))
         else r_owner r = user \<and> truthy (ownerRating (r_rating r))"
  shows "rateRequest s user rid rating review
           = (Failure 400 ''You have already rated this request'', s)"
  using assms by (auto simp: rateRequest_def Let_def split: if_splits)

lemma deleteRequest_store:
  "books (snd (deleteRequest s user rid)) = books s
   \<and> set (requests (snd (deleteRequest s user rid))) \<subseteq> set (requests s)"
  using set_findByIdAndDelete [of "requests s" rid]
  by (auto simp: deleteRequest_def split: option.splits if_splits)

section \<open>The offered book is never the target book\<close>

text \<open>
  \<open>createRequest\<close> stores an offered book that the requester owns and a target book
  that the requester does not own, and no lifecycle operation changes either reference.
\<close>

lemma createRequest_offered_differs:
  assumes "createRequest s user book type offeredBooks = (Success c (i, r), s')"
  shows "r_offeredBooks r \<noteq> Some (r_book r)"
  using assms
  by (auto simp: createRequest_def insertRequest_def findOneById_def Let_def
           split: option.splits if_splits kind.splits idParam.splits)

lemma reachable_offered_differs:
  assumes "reachable s" and "(i, r) \<in> set (requests s)"
  shows "r_offeredBooks r \<noteq> Some (r_book r)"
  using assms
proof (induction arbitrary: i r rule: reachable.induct)
  case (initial s)
  then show ?case by simp
next
  case (created s user bookId type offeredBooks)
  let ?res = "createRequest s user bookId type offeredBooks"
  show ?case
  proof (cases "\<exists>c x. fst ?res = Success c x")
    case False
    then have "snd ?res = s"
      using createRequest_failure [of s user bookId type offeredBooks "fst ?res" "snd ?res"]
      by simp
    then show ?thesis using created by simp
  next
    case True
    then obtain c k q where ok: "?res = (Success c (k, q), snd ?res)"
      by (auto simp: prod_eq_iff)
    from createRequest_success [OF ok] have "requests (snd ?res) = create (requests s) q"
      by simp
    then have "(i, r) \<in> set (requests s) \<or> r = q"
      using created.prems by (auto simp: create_def)
    then show ?thesis
      using created.IH createRequest_offered_differs [OF ok] by blast
  qed
next
  case (updated s user rid status now)
  let ?res = "updateRequest s user rid status now"
  show ?case
  proof (cases "\<exists>c x. fst ?res = Success c x")
    case False
    then have "snd ?res = s"
      using updateRequest_failure [of s user rid status now "fst ?res" "snd ?res"] by simp
    then show ?thesis using updated by simp
  next
    case True
    then obtain c x where ok: "?res = (Success c x, snd ?res)"
      by (auto simp: prod_eq_iff)
    from updateRequest_success [OF ok]
    obtain f where rq: "requests (snd ?res) = findByIdAndUpdate (requests s) rid f"
      and f: "\<And>q. r_offeredBooks (f q) = r_offeredBooks q \<and> r_book (f q) = r_book q"
      by auto
    from updated.prems set_findByIdAndUpdate [of i r "requests s" rid f]
    consider "(i, r) \<in> set (requests s)"
      | d where "findById (requests s) rid = Some d" "r = f d"
      unfolding rq by auto
    then show ?thesis
    proof cases
      case 1
      then show ?thesis by (rule updated.IH)
    next
      case 2
      then show ?thesis using updated.IH [OF findById_in_set [OF 2(1)]] f by simp
    qed
  qed
next
  case (rated s user rid rating review)
  let ?s' = "snd (rateRequest s user rid rating review)"
  from rateRequest_store [of s user rid rating review]
  obtain x where rq: "requests ?s' = requests s
             \<or> requests ?s' = findByIdAndUpdate (requests s) rid (\<lambda>q. q\<lparr>r_rating := x\<rparr>)"
    by blast
  then show ?case
  proof
    assume "requests ?s' = requests s"
    then show ?thesis using rated by simp
  next
    assume u: "requests ?s' = findByIdAndUpdate (requests s) rid (\<lambda>q. q\<lparr>r_rating := x\<rparr>)"
    from rated.prems set_findByIdAndUpdate [of i r "requests s" rid "\<lambda>q. q\<lparr>r_rating := x\<rparr>"]
    consider "(i, r) \<in> set (requests s)"
      | d where "findById (requests s) rid = Some d" "r = d\<lparr>r_rating := x\<rparr>"
      unfolding u by auto
    then show ?thesis
    proof cases
      case 1
      then show ?thesis by (rule rated.IH)
    next
      case 2
      then show ?thesis using rated.IH [OF findById_in_set [OF 2(1)]] by simp
    qed
  qed
next
  case (deleted s user rid)
  then show ?case using deleteRequest_store [of s user rid] by blast
qed

section \<open>C1: the status moves along the edges of the table\<close>

text \<open>
  Claim C1, as amended. For a request whose status is one of the five, every call of
  \<open>updateRequest\<close> either fails and leaves the store as it was, or answers 200 and
  moves the status of that request along an edge of the specification's table; no
  other request is touched. When the pair of the current and the requested status is
  not an edge, the call fails and changes nothing: with the 403 of the authorization
  block when the caller may not ask for the requested status, and otherwise with the
  400 whose message names the current and the requested status.
\<close>

theorem updateRequest_moves_along_edges:
  assumes "findById (requests s) rid = Some r"
    and "r_status r \<in> set allStatuses"
    and "updateRequest s user rid status now = (resp, s')"
  shows "((s' = s \<and> (\<exists>c m. resp = Failure c m))
          \<or> (\<exists>st r'. status = Some st \<and> (r_status r, st) \<in> set legalEdges
                \<and> resp = Success 200 (Some r')
                \<and> findById (requests s') rid = Some r' \<and> r_status r' = st))
       \<and> (\<forall>k. k \<noteq> rid \<longrightarrow> findById (requests s') k = findById (requests s) k)
       \<and> ((\<forall>st. status = Some st \<longrightarrow> (r_status r, st) \<notin> set legalEdges) \<longrightarrow>
            s' = s \<and>
            resp = (case authorize r user status of
                      Some msg \<Rightarrow> Failure 403 msg
                    | None \<Rightarrow> Failure 400 (''Cannot change status from '' @ r_status r
                                            @ '' to '' @ render status)))"
proof -
  obtain l where l: "validTransitions (r_status r) = Some l"
    using validTransitions_known [OF assms(2)] by blast
  show ?thesis
  proof (cases "authorize r user status")
    case (Some msg)
    then show ?thesis using assms(1,3) by (auto simp add: updateRequest_def)
  next
    case None
    show ?thesis
    proof (cases status)
      case N: None
      then show ?thesis using assms(1,3) l None by (auto simp add: updateRequest_def)
    next
      case (Some st)
      show ?thesis
      proof (cases "st \<in> set l")
        case False
        then show ?thesis using assms(1,3) l None Some
          by (auto simp add: updateRequest_def)
      next
        case True
        then have e: "(r_status r, st) \<in> set legalEdges"
          using validTransitions_edges [OF l] by simp
        then show ?thesis using assms(1,3) l None Some True
          by (auto simp add: updateRequest_def Let_def findById_findByIdAndUpdate)
      qed
    qed
  qed
qed

text \<open>
  The theorem at a pending request of the example store: the owner's request for
  \<open>completed\<close> is refused with both statuses in the message, and the owner's request
  for \<open>accepted\<close> moves along an edge.
\<close>

theorem updateRequest_moves_along_edges_witness:
  "findById (requests (exStore Free ''pending'' Available)) 1 = Some (exRequest Free ''pending'')
   \<and> r_status (exRequest Free ''pending'') \<in> set allStatuses
   \<and> updateRequest (exStore Free ''pending'' Available) 1 1 (Some ''completed'') 7
       = (Failure 400 ''Cannot change status from pending to completed'',
          exStore Free ''pending'' Available)
   \<and> updateRequest (exStore Free ''pending'' Available) 1 1 (Some ''accepted'') 7
       = (Success 200 (Some (exRequest Free ''accepted'')), exStore Free ''accepted'' NotAvailable)
   \<and> (''pending'', ''accepted'') \<in> set legalEdges"
proof -
  let ?s = "exStore Free ''pending'' Available"
  have h1: "findById (requests ?s) 1 = Some (exRequest Free ''pending'')"
    by code_simp
  have h2: "r_status (exRequest Free ''pending'') \<in> set allStatuses"
    by code_simp
  have h3: "updateRequest ?s 1 1 (Some ''completed'') 7
       = (Failure 400 ''Cannot change status from pending to completed'', ?s)"
    by code_simp
  have h4: "updateRequest ?s 1 1 (Some ''accepted'') 7
       = (Success 200 (Some (exRequest Free ''accepted'')), exStore Free ''accepted'' NotAvailable)"
    by code_simp
  from updateRequest_moves_along_edges [OF h1 h2 h4]
  have "(''pending'', ''accepted'') \<in> set legalEdges"
    by (simp add: exRequest_def)
  with h1 h2 h3 h4 show ?thesis by simp
qed

text \<open>
  Claim C1 as stated fails: the requester asks for \<open>accepted\<close> on a completed request.
  The pair is not an edge, and the answer is the 403 of the authorization block, which
  runs before the table is consulted, not the invalid-transition error.
\<close>

theorem updateRequest_forbidden_before_transition_counterexample:
  "updateRequest (exStore Free ''completed'' NotAvailable) 2 1 (Some ''accepted'') 7
     = (Failure 403 ''Only book owner can accept or reject requests'',
        exStore Free ''completed'' NotAvailable)
   \<and> (''completed'', ''accepted'') \<notin> set legalEdges"
  by code_simp

section \<open>C2: completion transfers ownership\<close>

text \<open>
  Claim C2. A successful transition to \<open>completed\<close> starts from \<open>accepted\<close>; it stores
  the status and the completion time on the request, makes the requester the owner of
  the target book and, for an exchange, makes the request's owner the owner of the
  offered book. The offered book is assumed not to be the target book, which holds of
  every request in a store reachable through the lifecycle operations
  (lemma \<open>reachable_offered_differs\<close>).
\<close>

theorem completed_transfers_ownership:
  assumes "findById (requests s) rid = Some r"
    and "r_offeredBooks r \<noteq> Some (r_book r)"
    and "updateRequest s user rid (Some ''completed'') now = (Success c x, s')"
  shows "r_status r = ''accepted''
       \<and> findById (requests s') rid
           = Some (r\<lparr>r_status := ''completed'', r_completedAt := Some now\<rparr>)
       \<and> findById (books s') (r_book r)
           = map_option (\<lambda>b. b\<lparr>b_status := NotAvailable, b_owner := r_requester r\<rparr>)
               (findById (books s) (r_book r))
       \<and> (\<forall>offered. r_type r = Exchange \<and> r_offeredBooks r = Some offered \<longrightarrow>
            findById (books s') offered
              = map_option (\<lambda>b. b\<lparr>b_status := NotAvailable, b_owner := r_owner r\<rparr>)
                  (findById (books s) offered))"
proof -
  from updateRequest_success [OF assms(3)] assms(1)
  obtain l where l: "validTransitions (r_status r) = Some l" "''completed'' \<in> set l"
    and rq: "requests s' = findByIdAndUpdate (requests s) rid
                 (\<lambda>r. r\<lparr>r_status := ''completed'', r_completedAt := Some now\<rparr>)"
    and bk: "books s' = updateBooks r ''completed'' (books s)"
    by auto
  have 0: "r_status r = ''accepted''"
    using l by (rule completed_only_from_accepted)
  have 1: "findById (requests s') rid
           = Some (r\<lparr>r_status := ''completed'', r_completedAt := Some now\<rparr>)"
    using assms(1) by (simp add: rq findById_findByIdAndUpdate)
  have 2: "findById (books s') (r_book r)
           = map_option (\<lambda>b. b\<lparr>b_status := NotAvailable, b_owner := r_requester r\<rparr>)
               (findById (books s) (r_book r))"
    using assms(2) by (simp add: bk findById_updateBooks_completed_target)
  have 3: "findById (books s') offered
              = map_option (\<lambda>b. b\<lparr>b_status := NotAvailable, b_owner := r_owner r\<rparr>)
                  (findById (books s) offered)"
    if "r_type r = Exchange" "r_offeredBooks r = Some offered" for offered
    using that by (simp add: bk findById_updateBooks_completed_offered)
  from 0 1 2 3 show ?thesis by blast
qed

text \<open>
  The theorem at the accepted exchange of the example store: Carol completes it, the
  book 10 goes to Carol and the book 11 to Alice.
\<close>

theorem completed_transfers_ownership_witness:
  "findById (requests (exStore Exchange ''accepted'' NotAvailable)) 1
     = Some (exRequest Exchange ''accepted'')
   \<and> updateRequest (exStore Exchange ''accepted'' NotAvailable) 2 1 (Some ''completed'') 9
     = (Success 200 (Some ((exRequest Exchange ''completed'')\<lparr>r_completedAt := Some 9\<rparr>)),
        \<lparr>users = exUsers,
         books = [(10, \<lparr>b_title = ''Dune'', b_owner = 2, b_status = NotAvailable, b_isActive = True\<rparr>),
                  (11, \<lparr>b_title = ''Emma'', b_owner = 1, b_status = NotAvailable, b_isActive = True\<rparr>)],
         requests = [(1, (exRequest Exchange ''completed'')\<lparr>r_completedAt := Some 9\<rparr>)]\<rparr>)
   \<and> findById (books (snd (updateRequest (exStore Exchange ''accepted'' NotAvailable) 2 1
                              (Some ''completed'') 9))) 10
     = Some \<lparr>b_title = ''Dune'', b_owner = 2, b_status = NotAvailable, b_isActive = True\<rparr>
   \<and> findById (books (snd (updateRequest (exStore Exchange ''accepted'' NotAvailable) 2 1
                              (Some ''completed'') 9))) 11
     = Some \<lparr>b_title = ''Emma'', b_owner = 1, b_status = NotAvailable, b_isActive = True\<rparr>"
proof -
  let ?s = "exStore Exchange ''accepted'' NotAvailable"
  let ?r = "exRequest Exchange ''accepted''"
  let ?s' = "\<lparr>users = exUsers,
         books = [(10, \<lparr>b_title = ''Dune'', b_owner = 2, b_status = NotAvailable, b_isActive = True\<rparr>),
                  (11, \<lparr>b_title = ''Emma'', b_owner = 1, b_status = NotAvailable, b_isActive = True\<rparr>)],
         requests = [(1, (exRequest Exchange ''completed'')\<lparr>r_completedAt := Some 9\<rparr>)]\<rparr>"
  have h1: "findById (requests ?s) 1 = Some ?r" by code_simp
  have h3: "r_offeredBooks ?r \<noteq> Some (r_book ?r)" by code_simp
  have h4: "updateRequest ?s 2 1 (Some ''completed'') 9
     = (Success 200 (Some ((exRequest Exchange ''completed'')\<lparr>r_completedAt := Some 9\<rparr>)), ?s')"
    by code_simp
  have b10: "findById (books ?s) 10
     = Some \<lparr>b_title = ''Dune'', b_owner = 1, b_status = NotAvailable, b_isActive = True\<rparr>"
    by code_simp
  have b11: "findById (books ?s) 11
     = Some \<lparr>b_title = ''Emma'', b_owner = 2, b_status = Available, b_isActive = True\<rparr>"
    by code_simp
  have t: "r_type ?r = Exchange" "r_offeredBooks ?r = Some 11" "r_book ?r = 10"
    "r_requester ?r = 2" "r_owner ?r = 1"
    by (simp_all add: exRequest_def)
  from completed_transfers_ownership [OF h1 h3 h4]
  have "findById (books ?s') 10
     = Some \<lparr>b_title = ''Dune'', b_owner = 2, b_status = NotAvailable, b_isActive = True\<rparr>
   \<and> findById (books ?s') 11
     = Some \<lparr>b_title = ''Emma'', b_owner = 1, b_status = NotAvailable, b_isActive = True\<rparr>"
    using b10 b11 t by simp
  with h1 h4 show ?thesis by simp
qed

section \<open>C3: the route refuses cancelled and rejected\<close>

text \<open>
  Claim C3, as amended. \<open>PUT /requests/{id}\<close> with the status \<open>cancelled\<close> or
  \<open>rejected\<close> is answered 400 by the validation of the route, whose schema admits only
  \<open>accepted\<close> and \<open>completed\<close>, and the store is unchanged. The controller itself,
  reached with \<open>cancelled\<close> by the requester of a pending request, or with
  \<open>rejected\<close> by its owner, answers 200 with the updated request and stores the new
  status.
\<close>

theorem put_cancel_reject_stopped_by_schema:
  assumes "st = ''cancelled'' \<or> st = ''rejected''"
  shows "(\<exists>msg. putRequest s user rid (Some st) now = (Failure 400 msg, s))
       \<and> (\<forall>r. findById (requests s) rid = Some r \<and> r_status r = ''pending''
              \<and> (if st = ''cancelled'' then r_requester r = user else r_owner r = user) \<longrightarrow>
            fst (updateRequest s user rid (Some st) now) = Success 200 (Some (r\<lparr>r_status := st\<rparr>))
            \<and> findById (requests (snd (updateRequest s user rid (Some st) now))) rid
                 = Some (r\<lparr>r_status := st\<rparr>))"
proof (intro conjI allI impI)
  show "\<exists>msg. putRequest s user rid (Some st) now = (Failure 400 msg, s)"
    using assms by (auto simp: putRequest_def updateRequestSchema_def)
next
  fix r
  assume a: "findById (requests s) rid = Some r \<and> r_status r = ''pending''
              \<and> (if st = ''cancelled'' then r_requester r = user else r_owner r = user)"
  have auth: "authorize r user (Some st) = None"
    using assms a by (auto simp: authorize_def)
  have vt: "validTransitions (r_status r) = Some [''accepted'', ''rejected'', ''cancelled'']"
    using a by (simp add: validTransitions_def)
  have nc: "st \<noteq> ''completed''" using assms by auto
  have m: "st \<in> set [''accepted'', ''rejected'', ''cancelled'']" using assms by auto
  show "fst (updateRequest s user rid (Some st) now) = Success 200 (Some (r\<lparr>r_status := st\<rparr>))"
    using a auth vt nc m
    by (simp add: updateRequest_def Let_def findById_findByIdAndUpdate)
  show "findById (requests (snd (updateRequest s user rid (Some st) now))) rid
                 = Some (r\<lparr>r_status := st\<rparr>)"
    using a auth vt nc m
    by (simp add: updateRequest_def Let_def findById_findByIdAndUpdate)
qed

text \<open>
  The theorem when Alice rejects the pending request of the example store: the route
  answers 400, the controller alone would have stored \<open>rejected\<close>.
\<close>

theorem put_cancel_reject_stopped_by_schema_witness:
  "putRequest (exStore Free ''pending'' Available) 1 1 (Some ''rejected'') 7
     = (Failure 400 ([CHR 0x22] @ ''status'' @ [CHR 0x22]
                     @ '' must be one of [accepted, completed]''),
        exStore Free ''pending'' Available)
   \<and> updateRequest (exStore Free ''pending'' Available) 1 1 (Some ''rejected'') 7
     = (Success 200 (Some (exRequest Free ''rejected'')), exStore Free ''rejected'' Available)"
proof -
  let ?s = "exStore Free ''pending'' Available"
  have h: "''rejected'' = ''cancelled'' \<or> ''rejected'' = ''rejected''" by simp
  have p: "putRequest ?s 1 1 (Some ''rejected'') 7
     = (Failure 400 ([CHR 0x22] @ ''status'' @ [CHR 0x22]
                     @ '' must be one of [accepted, completed]''), ?s)"
    by code_simp
  have u: "updateRequest ?s 1 1 (Some ''rejected'') 7
     = (Success 200 (Some (exRequest Free ''rejected'')), exStore Free ''rejected'' Available)"
    by code_simp
  from put_cancel_reject_stopped_by_schema [OF h, of ?s 1 1 7] p u
  show ?thesis by simp
qed

text \<open>
  Claim C3 as stated fails: Carol, the requester, sends \<open>{status: "cancelled"}\<close> for
  her pending request; the route answers 400 and the request stays pending.
\<close>

theorem put_cancelled_counterexample:
  "putRequest (exStore Free ''pending'' Available) 2 1 (Some ''cancelled'') 7
     = (Failure 400 ([CHR 0x22] @ ''status'' @ [CHR 0x22]
                     @ '' must be one of [accepted, completed]''),
        exStore Free ''pending'' Available)
   \<and> findById (requests (exStore Free ''pending'' Available)) 1
       = Some (exRequest Free ''pending'')
   \<and> r_requester (exRequest Free ''pending'') = 2"
  by code_simp

section \<open>C4: the outcomes of createRequest\<close>

text \<open>
  Claim C4, as amended. A target id that does not cast to an ObjectId is answered 500.
  For a target id that casts, \<open>createRequest\<close> answers 404 exactly when the target book
  is absent or inactive. Otherwise it answers 400 exactly when one of the four
  conditions of the specification holds (the book is not available, the requester owns
  it, the requester has a pending request for it, an exchange names no offered book) or
  the offered id of an exchange casts and names a book that is absent, inactive, not
  available or not the requester's; and it answers 500 exactly when none of the four
  conditions holds and the offered id of an exchange does not cast. A call that does
  not succeed leaves the store as it was. In every other case the call answers 201 and
  stores, under a new id, a pending request of the requester for the book, whose owner
  is the owner of the book.
\<close>

theorem createRequest_outcomes:
  "(book = Uncastable \<longrightarrow> createRequest s user book type offeredBooks = (ServerError, s))
   \<and> (\<forall>bookId. book = ObjectId bookId \<longrightarrow>
        ((\<exists>m. fst (createRequest s user book type offeredBooks) = Failure 404 m)
           \<longleftrightarrow> targetNotFound s bookId)
        \<and> ((\<exists>m. fst (createRequest s user book type offeredBooks) = Failure 400 m)
           \<longleftrightarrow> \<not> targetNotFound s bookId
               \<and> (specInvalidState s user bookId type offeredBooks
                   \<or> offeredInvalid s user type offeredBooks))
        \<and> (fst (createRequest s user book type offeredBooks) = ServerError
           \<longleftrightarrow> \<not> targetNotFound s bookId
               \<and> \<not> specInvalidState s user bookId type offeredBooks
               \<and> type = Exchange \<and> offeredBooks = Some Uncastable)
        \<and> (\<not> targetNotFound s bookId \<and> \<not> specInvalidState s user bookId type offeredBooks
             \<and> \<not> offeredInvalid s user type offeredBooks
             \<and> \<not> (type = Exchange \<and> offeredBooks = Some Uncastable)
           \<longrightarrow> (\<exists>b r. findById (books s) bookId = Some b
                  \<and> fst (createRequest s user book type offeredBooks)
                      = Success 201 (freshId (requests s), r)
                  \<and> r_status r = ''pending'' \<and> r_owner r = b_owner b
                  \<and> r_requester r = user \<and> r_book r = bookId \<and> r_type r = type
                  \<and> findById (requests (snd (createRequest s user book type offeredBooks)))
                       (freshId (requests s)) = Some r
                  \<and> (\<forall>k. k \<noteq> freshId (requests s) \<longrightarrow>
                        findById (requests (snd (createRequest s user book type offeredBooks))) k
                          = findById (requests s) k)
                  \<and> books (snd (createRequest s user book type offeredBooks)) = books s)))
   \<and> ((\<forall>c x. fst (createRequest s user book type offeredBooks) \<noteq> Success c x)
      \<longrightarrow> snd (createRequest s user book type offeredBooks) = s)"
proof (cases book)
  case Uncastable
  then show ?thesis by (simp add: createRequest_def)
next
  case (ObjectId bookId)
  show ?thesis
  proof (cases "findById (books s) bookId")
    case None
    then show ?thesis using ObjectId
      by (simp add: createRequest_def targetNotFound_def specInvalidState_def)
  next
    case (Some b)
    show ?thesis
    proof (cases "\<not> b_isActive b \<or> b_status b \<noteq> Available \<or> b_owner b = user
                  \<or> hasPending s user bookId")
      case True
      then show ?thesis using Some ObjectId
        by (auto simp: createRequest_def targetNotFound_def specInvalidState_def
                       findOne_pending findOne_pending_None)
    next
      case False
      show ?thesis
      proof (cases type)
        case Free
        then show ?thesis using Some False ObjectId
          by (auto simp: createRequest_def targetNotFound_def specInvalidState_def
                   offeredInvalid_def findOne_pending findOne_pending_None insertRequest_def
                   Let_def findById_create split: option.splits idParam.splits)
      next
        case Exchange
        show ?thesis
        proof (cases offeredBooks)
          case None
          then show ?thesis using Some False ObjectId Exchange
            by (auto simp: createRequest_def targetNotFound_def specInvalidState_def
                   offeredInvalid_def findOne_pending findOne_pending_None Let_def)
        next
          case offered: (Some param)
          show ?thesis
          proof (cases param)
            case Uncastable
            then show ?thesis using Some False ObjectId Exchange offered
              by (auto simp: createRequest_def targetNotFound_def specInvalidState_def
                     offeredInvalid_def findOne_pending findOne_pending_None Let_def)
          next
            case (ObjectId offeredId)
            then show ?thesis using Some False \<open>book = ObjectId bookId\<close> Exchange offered
              by (auto simp: createRequest_def targetNotFound_def specInvalidState_def
                     offeredInvalid_def findOne_pending findOne_pending_None insertRequest_def
                     Let_def findById_create findOneById_def split: option.splits)
          qed
        qed
      qed
    qed
  qed
qed

text \<open>
  The theorem at the example store without requests: Carol's exchange request is
  stored as pending with Alice as owner; a second request of hers for the same book
  is refused; a request for a book that does not exist is answered 404, and one for
  an id that does not cast is answered 500.
\<close>

theorem createRequest_outcomes_witness:
  "createRequest exEmpty 2 (ObjectId 10) Exchange (Some (ObjectId 11))
     = (Success 201 (1, exRequest Exchange ''pending''), exStore Exchange ''pending'' Available)
   \<and> r_status (exRequest Exchange ''pending'') = ''pending''
   \<and> r_owner (exRequest Exchange ''pending'') = 1
   \<and> createRequest (exStore Exchange ''pending'' Available) 2 (ObjectId 10) Free None
     = (Failure 400 ''You already have a pending request for this book'',
        exStore Exchange ''pending'' Available)
   \<and> createRequest exEmpty 2 (ObjectId 12) Free None = (Failure 404 ''Book not found'', exEmpty)
   \<and> createRequest exEmpty 2 Uncastable Free None = (ServerError, exEmpty)"
proof -
  have h: "createRequest exEmpty 2 (ObjectId 10) Exchange (Some (ObjectId 11))
     = (Success 201 (1, exRequest Exchange ''pending''), exStore Exchange ''pending'' Available)"
    by code_simp
  have n: "\<not> targetNotFound exEmpty 10" by code_simp
  have i: "\<not> specInvalidState exEmpty 2 10 Exchange (Some (ObjectId 11))" by code_simp
  have o: "\<not> offeredInvalid exEmpty 2 Exchange (Some (ObjectId 11))" by code_simp
  have b: "findById (books exEmpty) 10
     = Some \<lparr>b_title = ''Dune'', b_owner = 1, b_status = Available, b_isActive = True\<rparr>"
    by code_simp
  from createRequest_outcomes [of "ObjectId 10" exEmpty 2 Exchange "Some (ObjectId 11)"]
    n i o h b
  have 1: "r_status (exRequest Exchange ''pending'') = ''pending''
         \<and> r_owner (exRequest Exchange ''pending'') = 1"
    by auto
  let ?s = "exStore Exchange ''pending'' Available"
  have n2: "\<not> targetNotFound ?s 10" by code_simp
  have i2: "specInvalidState ?s 2 10 Free None" by code_simp
  have u2: "snd (createRequest ?s 2 (ObjectId 10) Free None) = ?s"
    using createRequest_outcomes [of "ObjectId 10" ?s 2 Free None] n2 i2 by auto
  have f2: "fst (createRequest ?s 2 (ObjectId 10) Free None)
              = Failure 400 ''You already have a pending request for this book''"
    by code_simp
  have 2: "createRequest ?s 2 (ObjectId 10) Free None
     = (Failure 400 ''You already have a pending request for this book'', ?s)"
    using u2 f2 by (simp add: prod_eq_iff)
  have 3: "createRequest exEmpty 2 (ObjectId 12) Free None
             = (Failure 404 ''Book not found'', exEmpty)"
    by code_simp
  have 4: "createRequest exEmpty 2 Uncastable Free None = (ServerError, exEmpty)"
    using createRequest_outcomes [of Uncastable exEmpty 2 Free None] by simp
  from h 1 2 3 4 show ?thesis by simp
qed

text \<open>
  Claim C4 as stated fails: the offered id casts and names no book, none of the four
  conditions of the specification holds, and the answer is 400, not 404.
\<close>

theorem createRequest_missing_offered_book_counterexample:
  "findById (books exEmpty) 12 = None
   \<and> \<not> targetNotFound exEmpty 10
   \<and> \<not> specInvalidState exEmpty 2 10 Exchange (Some (ObjectId 12))
   \<and> createRequest exEmpty 2 (ObjectId 10) Exchange (Some (ObjectId 12))
     = (Failure 400 ''Offered book is not valid or not available'', exEmpty)"
  by code_simp

section \<open>C5: books of accepted and completed requests\<close>

lemma isNotAvailable_updateBooks:
  "isNotAvailable bs k \<Longrightarrow> isNotAvailable (updateBooks r st bs) k"
  by (auto simp: isNotAvailable_def updateBooks_def Let_def findById_findByIdAndUpdate
           split: option.splits kind.splits)

lemma present_updateBooks:
  "findById bs k \<noteq> None \<Longrightarrow> findById (updateBooks r st bs) k \<noteq> None"
  by (auto simp: updateBooks_def Let_def findById_findByIdAndUpdate
           split: option.splits kind.splits)

lemma accepted_target_notAvailable:
  "findById bs (r_book r) \<noteq> None \<Longrightarrow> isNotAvailable (updateBooks r ''accepted'' bs) (r_book r)"
  by (auto simp: isNotAvailable_def findById_updateBooks_accepted)

lemma completed_target_notAvailable:
  "findById bs (r_book r) \<noteq> None \<Longrightarrow> isNotAvailable (updateBooks r ''completed'' bs) (r_book r)"
  by (auto simp: isNotAvailable_def updateBooks_def Let_def findById_findByIdAndUpdate
           split: option.splits kind.splits)

lemma completed_offered_notAvailable:
  "r_type r = Exchange \<Longrightarrow> r_offeredBooks r = Some offered \<Longrightarrow> findById bs offered \<noteq> None
   \<Longrightarrow> isNotAvailable (updateBooks r ''completed'' bs) offered"
  by (auto simp: isNotAvailable_def findById_updateBooks_completed_offered)

lemma requestInvariant_updateBooks:
  assumes "requestInvariant bs q"
  shows "requestInvariant (updateBooks r st bs) q"
proof (cases "r_offeredBooks q")
  case None
  then show ?thesis using assms
    by (simp add: requestInvariant_def present_updateBooks isNotAvailable_updateBooks)
next
  case (Some offered)
  then show ?thesis using assms
    by (simp add: requestInvariant_def present_updateBooks isNotAvailable_updateBooks)
qed

lemma requestInvariant_moved:
  assumes "requestInvariant bs r" and "st \<in> set [''accepted'', ''rejected'', ''cancelled'', ''completed'']"
  shows "requestInvariant (updateBooks r st bs)
           (if st = ''completed'' then r\<lparr>r_status := st, r_completedAt := Some now\<rparr>
            else r\<lparr>r_status := st\<rparr>)"
proof -
  from assms(1) have ex: "findById bs (r_book r) \<noteq> None"
    by (simp add: requestInvariant_def)
  have old: "requestInvariant (updateBooks r st bs) r"
    using assms(1) by (rule requestInvariant_updateBooks)
  consider "st = ''accepted''" | "st = ''completed''" | "st = ''rejected'' \<or> st = ''cancelled''"
    using assms(2) by auto
  then show ?thesis
  proof cases
    case 1
    then show ?thesis using old accepted_target_notAvailable [OF ex]
      by (simp add: requestInvariant_def)
  next
    case 2
    then show ?thesis
      using old completed_target_notAvailable [OF ex] assms(1)
      by (auto simp: requestInvariant_def completed_offered_notAvailable split: option.splits)
  next
    case 3
    then show ?thesis using old by (auto simp: requestInvariant_def)
  qed
qed

lemma lifecycleInvariant_updateRequest:
  assumes "lifecycleInvariant s"
  shows "lifecycleInvariant (snd (updateRequest s user rid status now))"
proof (cases "\<exists>c x. fst (updateRequest s user rid status now) = Success c x")
  case False
  then have "snd (updateRequest s user rid status now) = s"
    using updateRequest_failure [of s user rid status now
            "fst (updateRequest s user rid status now)" "snd (updateRequest s user rid status now)"]
    by simp
  then show ?thesis using assms by simp
next
  case True
  then obtain c x where ok: "updateRequest s user rid status now
      = (Success c x, snd (updateRequest s user rid status now))"
    by (auto simp: prod_eq_iff)
  let ?s' = "snd (updateRequest s user rid status now)"
  from updateRequest_success [OF ok]
  obtain r st l where r: "findById (requests s) rid = Some r"
    and l: "validTransitions (r_status r) = Some l" "st \<in> set l"
    and rq: "requests ?s' = findByIdAndUpdate (requests s) rid
                 (\<lambda>r. if st = ''completed''
                      then r\<lparr>r_status := st, r_completedAt := Some now\<rparr>
                      else r\<lparr>r_status := st\<rparr>)"
    and bk: "books ?s' = updateBooks r st (books s)"
    by auto
  have rin: "requestInvariant (books s) r"
    using assms findById_in_set [OF r] by (auto simp: lifecycleInvariant_def)
  have "requestInvariant (books ?s') q" if "(k, q) \<in> set (requests ?s')" for k q
  proof -
    from that set_findByIdAndUpdate [of k q "requests s" rid]
    consider "(k, q) \<in> set (requests s)"
      | "q = (if st = ''completed'' then r\<lparr>r_status := st, r_completedAt := Some now\<rparr>
              else r\<lparr>r_status := st\<rparr>)"
      using r unfolding rq by auto
    then show ?thesis
    proof cases
      case 1
      then have "requestInvariant (books s) q"
        using assms by (auto simp: lifecycleInvariant_def)
      then show ?thesis unfolding bk by (rule requestInvariant_updateBooks)
    next
      case 2
      show ?thesis unfolding bk 2
        by (rule requestInvariant_moved [OF rin validTransitions_targets [OF l]])
    qed
  qed
  then show ?thesis by (auto simp: lifecycleInvariant_def)
qed

lemma lifecycleInvariant_createRequest:
  assumes "lifecycleInvariant s"
  shows "lifecycleInvariant (snd (createRequest s user bookId type offeredBooks))"
proof (cases "\<exists>c x. fst (createRequest s user bookId type offeredBooks) = Success c x")
  case False
  then have "snd (createRequest s user bookId type offeredBooks) = s"
    using createRequest_failure [of s user bookId type offeredBooks
            "fst (createRequest s user bookId type offeredBooks)"
            "snd (createRequest s user bookId type offeredBooks)"]
    by simp
  then show ?thesis using assms by simp
next
  case True
  then obtain c i r where ok: "createRequest s user bookId type offeredBooks
      = (Success c (i, r), snd (createRequest s user bookId type offeredBooks))"
    by (auto simp: prod_eq_iff)
  note f = createRequest_success [OF ok]
  have "requestInvariant (books s) r"
    using f by (auto simp: requestInvariant_def split: option.splits)
  then show ?thesis using assms f
    by (auto simp: lifecycleInvariant_def create_def)
qed

lemma requestInvariant_rated: "requestInvariant bs q \<Longrightarrow> requestInvariant bs (q\<lparr>r_rating := x\<rparr>)"
  by (simp add: requestInvariant_def)

lemma lifecycleInvariant_rateRequest:
  assumes "lifecycleInvariant s"
  shows "lifecycleInvariant (snd (rateRequest s user rid rating review))"
proof -
  let ?s' = "snd (rateRequest s user rid rating review)"
  from rateRequest_store [of s user rid rating review]
  obtain x where bk: "books ?s' = books s"
    and rq: "requests ?s' = requests s
             \<or> requests ?s' = findByIdAndUpdate (requests s) rid (\<lambda>q. q\<lparr>r_rating := x\<rparr>)"
    by blast
  have "requestInvariant (books s) q" if "(k, q) \<in> set (requests ?s')" for k q
    using rq
  proof
    assume "requests ?s' = requests s"
    then show ?thesis using that assms by (auto simp: lifecycleInvariant_def)
  next
    assume u: "requests ?s' = findByIdAndUpdate (requests s) rid (\<lambda>q. q\<lparr>r_rating := x\<rparr>)"
    from that set_findByIdAndUpdate [of k q "requests s" rid "\<lambda>q. q\<lparr>r_rating := x\<rparr>"]
    consider "(k, q) \<in> set (requests s)"
      | d where "findById (requests s) rid = Some d" "q = d\<lparr>r_rating := x\<rparr>"
      unfolding u by auto
    then show ?thesis
    proof cases
      case 1
      then show ?thesis using assms by (auto simp: lifecycleInvariant_def)
    next
      case 2
      then have "requestInvariant (books s) d"
        using assms findById_in_set [of "requests s" rid d] by (auto simp: lifecycleInvariant_def)
      then show ?thesis unfolding 2 by (rule requestInvariant_rated)
    qed
  qed
  then show ?thesis by (auto simp: lifecycleInvariant_def bk)
qed

lemma lifecycleInvariant_deleteRequest:
  assumes "lifecycleInvariant s"
  shows "lifecycleInvariant (snd (deleteRequest s user rid))"
  using assms deleteRequest_store [of s user rid]
  by (auto simp: lifecycleInvariant_def)

lemma reachable_lifecycleInvariant: "reachable s \<Longrightarrow> lifecycleInvariant s"
proof (induction rule: reachable.induct)
  case (initial s)
  then show ?case by (simp add: lifecycleInvariant_def)
next
  case (created s user bookId type offeredBooks)
  then show ?case by (simp add: lifecycleInvariant_createRequest)
next
  case (updated s user rid status now)
  then show ?case by (simp add: lifecycleInvariant_updateRequest)
next
  case (rated s user rid rating review)
  then show ?case by (simp add: lifecycleInvariant_rateRequest)
next
  case (deleted s user rid)
  then show ?case by (simp add: lifecycleInvariant_deleteRequest)
qed

lemma reachable_exAccepted: "reachable exAccepted"
proof -
  have "reachable exEmpty" by (rule reachable.initial) (simp add: exEmpty_def)
  then have "reachable (snd (createRequest exEmpty 2 (ObjectId 10) Exchange (Some (ObjectId 11))))"
    by (rule reachable.created)
  then show ?thesis unfolding exAccepted_def by (rule reachable.updated)
qed

text \<open>
  Claim C5, as amended. In every store reachable through the lifecycle operations, the
  target book of every accepted or completed request exists and is not available, and
  so is the offered book of every completed exchange; and a successful transition to
  \<open>accepted\<close> leaves the target book not available. The offered book of an accepted
  exchange is not covered: acceptance writes the target book only.
\<close>

theorem lifecycle_keeps_books_unavailable:
  assumes "reachable s"
  shows "(\<forall>(i, r) \<in> set (requests s).
            (r_status r = ''accepted'' \<or> r_status r = ''completed''
               \<longrightarrow> isNotAvailable (books s) (r_book r))
            \<and> (r_status r = ''completed'' \<and> r_type r = Exchange
               \<longrightarrow> (\<exists>offered. r_offeredBooks r = Some offered
                      \<and> isNotAvailable (books s) offered)))
       \<and> (\<forall>user rid now c x s' r.
            findById (requests s) rid = Some r
            \<and> updateRequest s user rid (Some ''accepted'') now = (Success c x, s')
            \<longrightarrow> isNotAvailable (books s') (r_book r))"
proof (intro conjI allI impI)
  from assms have inv: "lifecycleInvariant s" by (rule reachable_lifecycleInvariant)
  then show "\<forall>(i, r) \<in> set (requests s).
            (r_status r = ''accepted'' \<or> r_status r = ''completed''
               \<longrightarrow> isNotAvailable (books s) (r_book r))
            \<and> (r_status r = ''completed'' \<and> r_type r = Exchange
               \<longrightarrow> (\<exists>offered. r_offeredBooks r = Some offered
                      \<and> isNotAvailable (books s) offered))"
    by (auto simp: lifecycleInvariant_def requestInvariant_def split: option.splits)
  fix user rid now c x s' r
  assume a: "findById (requests s) rid = Some r
            \<and> updateRequest s user rid (Some ''accepted'') now = (Success c x, s')"
  then have "requestInvariant (books s) r"
    using inv findById_in_set [of "requests s" rid r] by (auto simp: lifecycleInvariant_def)
  then have ex: "findById (books s) (r_book r) \<noteq> None" by (simp add: requestInvariant_def)
  from a updateRequest_success [of s user rid "Some ''accepted''" now c x s']
  have "books s' = updateBooks r ''accepted'' (books s)" by auto
  then show "isNotAvailable (books s') (r_book r)"
    using accepted_target_notAvailable [OF ex] by simp
qed

text \<open>
  The theorem at the store in which Carol has asked for an exchange and Alice has
  accepted: the book 10 is not available.
\<close>

theorem lifecycle_keeps_books_unavailable_witness:
  "requests exAccepted = [(1, exRequest Exchange ''accepted'')]
   \<and> isNotAvailable (books exAccepted) 10"
proof -
  have rq: "requests exAccepted = [(1, exRequest Exchange ''accepted'')]" by code_simp
  have k: "r_status (exRequest Exchange ''accepted'') = ''accepted''"
    "r_book (exRequest Exchange ''accepted'') = 10"
    by (simp_all add: exRequest_def)
  from lifecycle_keeps_books_unavailable [OF reachable_exAccepted]
  have "isNotAvailable (books exAccepted) 10"
    unfolding rq using k by simp
  with rq show ?thesis by simp
qed

text \<open>
  Claim C5 as stated fails in the same reachable store: the accepted request offers
  the book 11, which is still available.
\<close>

theorem accepted_exchange_offered_book_available_counterexample:
  "requests exAccepted = [(1, exRequest Exchange ''accepted'')]
   \<and> r_status (exRequest Exchange ''accepted'') = ''accepted''
   \<and> r_offeredBooks (exRequest Exchange ''accepted'') = Some 11
   \<and> findById (books exAccepted) 11
       = Some \<lparr>b_title = ''Emma'', b_owner = 2, b_status = Available, b_isActive = True\<rparr>
   \<and> reachable exAccepted"
proof -
  have "requests exAccepted = [(1, exRequest Exchange ''accepted'')]
   \<and> r_status (exRequest Exchange ''accepted'') = ''accepted''
   \<and> r_offeredBooks (exRequest Exchange ''accepted'') = Some 11
   \<and> findById (books exAccepted) 11
       = Some \<lparr>b_title = ''Emma'', b_owner = 2, b_status = Available, b_isActive = True\<rparr>"
    by code_simp
  then show ?thesis using reachable_exAccepted by simp
qed

section \<open>C6: one rating for each side\<close>

text \<open>
  For a rating that arrives as a number the handler does what claim C6 says, up to the
  rounding of doubles, which is left out. A call with a number that the route's schema
  accepts, when it succeeds, is a call on a
  completed request; it stores the rating and the review on the caller's side of the
  request; the counterparty (the owner when the requester rates, the requester when the
  owner rates) gets the count plus one and the average
  (average * count + rating) / (count + 1), which for a counterparty with count 0 is
  the rating itself, with count 1; and every later call by the same caller on that
  request is answered 400, already rated, and changes nothing.
\<close>

lemma rateRequest_number_rating:
  assumes "findById (requests s) rid = Some r"
    and "rateRequestSchema (JNum rating) review"
    and "rateRequest s user rid (JNum rating) review = (Success c x, s')"
  shows "r_status r = ''completed''
       \<and> (\<exists>u. findById (users s) (if r_requester r = user then r_owner r else r_requester r)
                 = Some u
             \<and> findById (users s') (if r_requester r = user then r_owner r else r_requester r)
                 = Some (u\<lparr>u_ratingCount := u_ratingCount u + 1,
                          u_ratingAverage :=
                            (u_ratingAverage u * of_nat (u_ratingCount u) + rating)
                            / of_nat (u_ratingCount u + 1)\<rparr>)
             \<and> (u_ratingCount u = 0 \<longrightarrow>
                  findById (users s') (if r_requester r = user then r_owner r else r_requester r)
                    = Some (u\<lparr>u_ratingCount := 1, u_ratingAverage := rating\<rparr>)))
       \<and> findById (requests s') rid
           = Some (r\<lparr>r_rating :=
                       (if r_requester r = user
                        then (r_rating r)\<lparr>requesterRating := Some rating, requesterReview := review\<rparr>
                        else (r_rating r)\<lparr>ownerRating := Some rating, ownerReview := review\<rparr>)\<rparr>)
       \<and> (\<forall>rating2 review2.
            rateRequest s' user rid rating2 review2
              = (Failure 400 ''You have already rated this request'', s'))"
proof -
  note ok = rateRequest_success [OF assms(3) assms(1)]
  have nz: "rating \<noteq> 0" using assms(2) by (auto simp: rateRequestSchema_def)
  have st: "r_status r = ''completed''" using ok by simp
  have rq: "requests s' = findByIdAndUpdate (requests s) rid (\<lambda>q. q\<lparr>r_rating := x\<rparr>)"
    using ok by simp
  have own: "r_requester r \<noteq> user \<Longrightarrow> r_owner r = user"
    using ok by simp
  let ?cp = "if r_requester r = user then r_owner r else r_requester r"
  from ok obtain u u' stored where u: "findById (users s) ?cp = Some u"
    and up: "updateRating u (JNum rating) = Some u'"
    and cast: "castNumber (JNum rating) = Some stored"
    and us: "users s' = findByIdAndUpdate (users s) ?cp (\<lambda>v. u')"
    and x0: "x = (if r_requester r = user
                  then (r_rating r)\<lparr>requesterRating := stored, requesterReview := review\<rparr>
                  else (r_rating r)\<lparr>ownerRating := stored, ownerReview := review\<rparr>)"
    by blast
  have stored: "stored = Some rating" using cast by (simp add: castNumber_def)
  have x: "x = (if r_requester r = user
                then (r_rating r)\<lparr>requesterRating := Some rating, requesterReview := review\<rparr>
                else (r_rating r)\<lparr>ownerRating := Some rating, ownerReview := review\<rparr>)"
    using x0 stored by simp
  have u': "findById (users s') ?cp
              = Some (u\<lparr>u_ratingCount := u_ratingCount u + 1,
                       u_ratingAverage :=
                         (u_ratingAverage u * of_nat (u_ratingCount u) + rating)
                         / of_nat (u_ratingCount u + 1)\<rparr>)"
    using u updateRating_number [OF up] by (simp add: us findById_findByIdAndUpdate)
  have first: "u_ratingCount u = 0 \<Longrightarrow>
     findById (users s') ?cp = Some (u\<lparr>u_ratingCount := 1, u_ratingAverage := rating\<rparr>)"
    using u' by simp
  have r': "findById (requests s') rid = Some (r\<lparr>r_rating := x\<rparr>)"
    using assms(1) by (simp add: rq findById_findByIdAndUpdate)
  have again: "rateRequest s' user rid rating2 review2
              = (Failure 400 ''You have already rated this request'', s')" for rating2 review2
  proof (rule rateRequest_already_rated [OF r'])
    show "r_status (r\<lparr>r_rating := x\<rparr>) = ''completed''" using st by simp
    show "if r_requester (r\<lparr>r_rating := x\<rparr>) = user
          then truthy (requesterRating (r_rating (r\<lparr>r_rating := x\<rparr>)))
          else r_owner (r\<lparr>r_rating := x\<rparr>) = user
               \<and> truthy (ownerRating (r_rating (r\<lparr>r_rating := x\<rparr>)))"
      using nz own by (simp add: x truthy_def)
  qed
  have cp: "\<exists>u. findById (users s) ?cp = Some u
             \<and> findById (users s') ?cp
                 = Some (u\<lparr>u_ratingCount := u_ratingCount u + 1,
                          u_ratingAverage :=
                            (u_ratingAverage u * of_nat (u_ratingCount u) + rating)
                            / of_nat (u_ratingCount u + 1)\<rparr>)
             \<and> (u_ratingCount u = 0 \<longrightarrow>
                  findById (users s') ?cp
                    = Some (u\<lparr>u_ratingCount := 1, u_ratingAverage := rating\<rparr>))"
    using u u' first by (intro exI [of _ u] conjI impI)
  show ?thesis
  proof (intro conjI allI)
    show "r_status r = ''completed''" by (fact st)
    show "\<exists>u. findById (users s) ?cp = Some u
             \<and> findById (users s') ?cp
                 = Some (u\<lparr>u_ratingCount := u_ratingCount u + 1,
                          u_ratingAverage :=
                            (u_ratingAverage u * of_nat (u_ratingCount u) + rating)
                            / of_nat (u_ratingCount u + 1)\<rparr>)
             \<and> (u_ratingCount u = 0 \<longrightarrow>
                  findById (users s') ?cp
                    = Some (u\<lparr>u_ratingCount := 1, u_ratingAverage := rating\<rparr>))"
      by (fact cp)
    show "findById (requests s') rid
           = Some (r\<lparr>r_rating :=
                       (if r_requester r = user
                        then (r_rating r)\<lparr>requesterRating := Some rating, requesterReview := review\<rparr>
                        else (r_rating r)\<lparr>ownerRating := Some rating, ownerReview := review\<rparr>)\<rparr>)"
      using r' unfolding x .
    show "rateRequest s' user rid rating2 review2
              = (Failure 400 ''You have already rated this request'', s')" for rating2 review2
      by (fact again)
  qed
qed

text \<open>
  Claim C6: the code at an input where it departs from the claim. Alice has the average
  1.5 with count 1, and Carol rates her completed request with the body
  \<open>{rating: "1"}\<close>. The schema of the route accepts the string; the handler answers 200
  and stores the rating 1 on Carol's side; \<open>updateRating\<close> concatenates 1.5 and the
  string to \<open>1.51\<close> and divides by 2, so Alice's average is 0.755 with count 2, where
  the formula of the claim gives (1.5 * 1 + 1) / 2 = 1.25.
\<close>

theorem rateRequest_string_rating_is_concatenated:
  "rateRequestSchema (JStr ''1'') None
   \<and> findById (users exRated) 1
       = Some \<lparr>u_name = ''Alice'', u_ratingAverage = 3 / 2, u_ratingCount = 1, u_isActive = True\<rparr>
   \<and> fst (rateRequest exRated 2 1 (JStr ''1'') None)
       = Success 200 (noRating\<lparr>requesterRating := Some 1\<rparr>)
   \<and> findById (users (snd (rateRequest exRated 2 1 (JStr ''1'') None))) 1
       = Some \<lparr>u_name = ''Alice'', u_ratingAverage = 151 / 200, u_ratingCount = 2,
               u_isActive = True\<rparr>
   \<and> jsPlus (3 / 2 * of_nat 1) (JStr ''1'') = JStr ''1.51''
   \<and> (3 / 2 * of_nat 1 + 1) / of_nat (1 + 1) = (5 / 4 :: rat)"
  by code_simp

section \<open>C7: rejection and cancellation touch no book\<close>

text \<open>
  Claim C7. A successful transition to \<open>rejected\<close> or to \<open>cancelled\<close> leaves the
  collection of books as it was: every field of every book, the target book and the
  offered book among them, is unchanged.
\<close>

theorem rejected_cancelled_touch_no_book:
  assumes "st = ''rejected'' \<or> st = ''cancelled''"
    and "updateRequest s user rid (Some st) now = (Success c x, s')"
  shows "books s' = books s \<and> users s' = users s"
proof -
  from updateRequest_success [OF assms(2)]
  obtain r where "books s' = updateBooks r st (books s)" and "users s' = users s"
    by auto
  moreover have "st \<noteq> ''accepted''" and "st \<noteq> ''completed''"
    using assms(1) by auto
  ultimately show ?thesis by (simp add: updateBooks_other)
qed

text \<open>
  The theorem when Carol cancels the accepted exchange of the example store: the book 10
  stays as the acceptance left it.
\<close>

theorem rejected_cancelled_touch_no_book_witness:
  "updateRequest (exStore Exchange ''accepted'' NotAvailable) 2 1 (Some ''cancelled'') 9
     = (Success 200 (Some (exRequest Exchange ''cancelled'')),
        exStore Exchange ''cancelled'' NotAvailable)
   \<and> books (exStore Exchange ''cancelled'' NotAvailable)
     = books (exStore Exchange ''accepted'' NotAvailable)"
proof -
  have h: "updateRequest (exStore Exchange ''accepted'' NotAvailable) 2 1 (Some ''cancelled'') 9
     = (Success 200 (Some (exRequest Exchange ''cancelled'')),
        exStore Exchange ''cancelled'' NotAvailable)"
    by code_simp
  have "''cancelled'' = ''rejected'' \<or> ''cancelled'' = ''cancelled''" by simp
  from rejected_cancelled_touch_no_book [OF this h] h show ?thesis by simp
qed

section \<open>C8: a transition is applied whole or not at all\<close>

text \<open>
  Claim C8. A call of \<open>updateRequest\<close> that does not answer with a success (404, 403,
  400, or a caught exception) leaves the whole store as it was. A call that answers with
  a success has stored the new status on the request and has applied the book updates
  of that transition: the target book not available on \<open>accepted\<close>; on \<open>completed\<close>
  the completion time, the target book with the requester as owner, and for an exchange
  the offered book with the request's owner as owner.
\<close>

theorem updateRequest_all_or_nothing:
  assumes "updateRequest s user rid status now = (resp, s')"
  shows "((\<forall>c x. resp \<noteq> Success c x) \<longrightarrow> s' = s)
       \<and> (\<forall>c x. resp = Success c x \<longrightarrow>
            (\<exists>r st r'. findById (requests s) rid = Some r \<and> status = Some st
               \<and> x = Some r' \<and> findById (requests s') rid = Some r' \<and> r_status r' = st
               \<and> (st = ''accepted'' \<longrightarrow>
                    findById (books s') (r_book r)
                      = map_option (\<lambda>b. b\<lparr>b_status := NotAvailable\<rparr>)
                          (findById (books s) (r_book r)))
               \<and> (st = ''completed'' \<longrightarrow>
                    r_completedAt r' = Some now
                    \<and> (r_offeredBooks r \<noteq> Some (r_book r) \<longrightarrow>
                          findById (books s') (r_book r)
                            = map_option
                                (\<lambda>b. b\<lparr>b_status := NotAvailable, b_owner := r_requester r\<rparr>)
                                (findById (books s) (r_book r)))
                    \<and> (\<forall>offered. r_type r = Exchange \<and> r_offeredBooks r = Some offered \<longrightarrow>
                          findById (books s') offered
                            = map_option
                                (\<lambda>b. b\<lparr>b_status := NotAvailable, b_owner := r_owner r\<rparr>)
                                (findById (books s) offered)))))"
proof (intro conjI allI impI)
  assume "\<forall>c x. resp \<noteq> Success c x"
  with assms show "s' = s" by (rule updateRequest_failure)
next
  fix c x
  assume "resp = Success c x"
  with assms have ok: "updateRequest s user rid status now = (Success c x, s')" by simp
  from updateRequest_success [OF ok]
  obtain r st where r: "findById (requests s) rid = Some r" and st: "status = Some st"
    and x: "x = findById (requests s') rid"
    and rq: "requests s' = findByIdAndUpdate (requests s) rid
                 (\<lambda>r. if st = ''completed''
                      then r\<lparr>r_status := st, r_completedAt := Some now\<rparr>
                      else r\<lparr>r_status := st\<rparr>)"
    and bk: "books s' = updateBooks r st (books s)"
    by auto
  define r' where "r' = (if st = ''completed''
                      then r\<lparr>r_status := st, r_completedAt := Some now\<rparr>
                      else r\<lparr>r_status := st\<rparr>)"
  have f: "findById (requests s') rid = Some r'"
    using r by (simp add: rq findById_findByIdAndUpdate r'_def)
  have "r_status r' = st" by (simp add: r'_def)
  moreover have "st = ''completed'' \<Longrightarrow> r_completedAt r' = Some now" by (simp add: r'_def)
  moreover have "st = ''accepted'' \<Longrightarrow> findById (books s') (r_book r)
                      = map_option (\<lambda>b. b\<lparr>b_status := NotAvailable\<rparr>)
                          (findById (books s) (r_book r))"
    by (simp add: bk findById_updateBooks_accepted)
  moreover have "st = ''completed'' \<Longrightarrow> r_offeredBooks r \<noteq> Some (r_book r) \<Longrightarrow>
       findById (books s') (r_book r)
         = map_option (\<lambda>b. b\<lparr>b_status := NotAvailable, b_owner := r_requester r\<rparr>)
                                (findById (books s) (r_book r))"
    by (simp add: bk findById_updateBooks_completed_target)
  moreover have "st = ''completed'' \<Longrightarrow> r_type r = Exchange \<Longrightarrow> r_offeredBooks r = Some offered \<Longrightarrow>
       findById (books s') offered
         = map_option (\<lambda>b. b\<lparr>b_status := NotAvailable, b_owner := r_owner r\<rparr>)
                                (findById (books s) offered)" for offered
    by (simp add: bk findById_updateBooks_completed_offered)
  ultimately show "\<exists>r st r'. findById (requests s) rid = Some r \<and> status = Some st
               \<and> x = Some r' \<and> findById (requests s') rid = Some r' \<and> r_status r' = st
               \<and> (st = ''accepted'' \<longrightarrow>
                    findById (books s') (r_book r)
                      = map_option (\<lambda>b. b\<lparr>b_status := NotAvailable\<rparr>)
                          (findById (books s) (r_book r)))
               \<and> (st = ''completed'' \<longrightarrow>
                    r_completedAt r' = Some now
                    \<and> (r_offeredBooks r \<noteq> Some (r_book r) \<longrightarrow>
                          findById (books s') (r_book r)
                            = map_option
                                (\<lambda>b. b\<lparr>b_status := NotAvailable, b_owner := r_requester r\<rparr>)
                                (findById (books s) (r_book r)))
                    \<and> (\<forall>offered. r_type r = Exchange \<and> r_offeredBooks r = Some offered \<longrightarrow>
                          findById (books s') offered
                            = map_option
                                (\<lambda>b. b\<lparr>b_status := NotAvailable, b_owner := r_owner r\<rparr>)
                                (findById (books s) offered)))"
    using r st x f by blast
qed

text \<open>
  The theorem at the pending request of the example store: Alice accepts, and both the
  request and the book 10 are written; Dan's attempt is refused and writes nothing.
\<close>

theorem updateRequest_all_or_nothing_witness:
  "updateRequest (exStore Free ''pending'' Available) 1 1 (Some ''accepted'') 7
     = (Success 200 (Some (exRequest Free ''accepted'')), exStore Free ''accepted'' NotAvailable)
   \<and> findById (requests (exStore Free ''accepted'' NotAvailable)) 1
     = Some (exRequest Free ''accepted'')
   \<and> findById (books (exStore Free ''accepted'' NotAvailable)) 10
     = Some \<lparr>b_title = ''Dune'', b_owner = 1, b_status = NotAvailable, b_isActive = True\<rparr>
   \<and> updateRequest (exStore Free ''pending'' Available) 3 1 (Some ''accepted'') 7
     = (Failure 403 ''Only book owner can accept or reject requests'',
        exStore Free ''pending'' Available)"
proof -
  let ?s = "exStore Free ''pending'' Available"
  let ?s' = "exStore Free ''accepted'' NotAvailable"
  have h: "updateRequest ?s 1 1 (Some ''accepted'') 7
     = (Success 200 (Some (exRequest Free ''accepted'')), ?s')"
    by code_simp
  have g: "updateRequest ?s 3 1 (Some ''accepted'') 7
     = (Failure 403 ''Only book owner can accept or reject requests'', ?s)"
    by code_simp
  have r: "findById (requests ?s) 1 = Some (exRequest Free ''pending'')" by code_simp
  have b: "findById (books ?s) 10
     = Some \<lparr>b_title = ''Dune'', b_owner = 1, b_status = Available, b_isActive = True\<rparr>"
    by code_simp
  have k: "r_book (exRequest Free ''pending'') = 10" by (simp add: exRequest_def)
  from updateRequest_all_or_nothing [OF h] r b k
  have "findById (requests ?s') 1 = Some (exRequest Free ''accepted'')
      \<and> findById (books ?s') 10
     = Some \<lparr>b_title = ''Dune'', b_owner = 1, b_status = NotAvailable, b_isActive = True\<rparr>"
    by auto
  with h g show ?thesis by simp
qed

section \<open>C9: only the two parties read a request\<close>

text \<open>
  Users are never removed, so in a store that the lifecycle routes reach the owner of
  every book and the two parties of every request are users.
\<close>

lemma findById_kept:
  "findById (findByIdAndUpdate c i f) k = None \<longleftrightarrow> findById c k = None"
  by (simp add: findById_findByIdAndUpdate)

lemma set_findByIdAndUpdate_old:
  assumes "(k, d') \<in> set (findByIdAndUpdate c i f)"
  shows "(k, d') \<in> set c \<or> (\<exists>d. (k, d) \<in> set c \<and> d' = f d)"
  using set_findByIdAndUpdate [OF assms] findById_in_set [of c i] by blast

lemma set_updateBooks_owner:
  assumes "(k, b') \<in> set (updateBooks r st bs)"
  shows "(\<exists>b. (k, b) \<in> set bs \<and> b_owner b' = b_owner b)
         \<or> b_owner b' = r_requester r \<or> b_owner b' = r_owner r"
  using assms
  by (auto simp: updateBooks_def Let_def
           split: if_splits kind.splits option.splits
           dest!: set_findByIdAndUpdate_old)

lemma usersInvariant_createRequest:
  assumes "ownersAreUsers s" and "partiesAreUsers s" and "authenticated s user"
  shows "ownersAreUsers (snd (createRequest s user book type offeredBooks))
       \<and> partiesAreUsers (snd (createRequest s user book type offeredBooks))"
proof (cases "\<exists>c x. fst (createRequest s user book type offeredBooks) = Success c x")
  case False
  then have "snd (createRequest s user book type offeredBooks) = s"
    using createRequest_failure [of s user book type offeredBooks
            "fst (createRequest s user book type offeredBooks)"
            "snd (createRequest s user book type offeredBooks)"]
    by simp
  then show ?thesis using assms by simp
next
  case True
  let ?s' = "snd (createRequest s user book type offeredBooks)"
  from True obtain c i r where ok: "createRequest s user book type offeredBooks
      = (Success c (i, r), ?s')"
    by (auto simp: prod_eq_iff)
  note f = createRequest_success [OF ok]
  from f obtain b where b: "findById (books s) (r_book r) = Some b" "r_owner r = b_owner b"
    by blast
  have "findById (users s) (r_owner r) \<noteq> None"
    using assms(1) findById_in_set [OF b(1)] b(2) by (auto simp: ownersAreUsers_def)
  moreover have "findById (users s) (r_requester r) \<noteq> None"
    using assms(3) f by (auto simp: authenticated_def split: option.splits)
  ultimately show ?thesis using assms(1,2) f
    by (auto simp: ownersAreUsers_def partiesAreUsers_def create_def)
qed

lemma usersInvariant_updateRequest:
  assumes "ownersAreUsers s" and "partiesAreUsers s"
  shows "ownersAreUsers (snd (updateRequest s user rid status now))
       \<and> partiesAreUsers (snd (updateRequest s user rid status now))"
proof (cases "\<exists>c x. fst (updateRequest s user rid status now) = Success c x")
  case False
  then have "snd (updateRequest s user rid status now) = s"
    using updateRequest_failure [of s user rid status now
            "fst (updateRequest s user rid status now)" "snd (updateRequest s user rid status now)"]
    by simp
  then show ?thesis using assms by simp
next
  case True
  let ?s' = "snd (updateRequest s user rid status now)"
  from True obtain c x where ok: "updateRequest s user rid status now = (Success c x, ?s')"
    by (auto simp: prod_eq_iff)
  from updateRequest_success [OF ok]
  obtain r st f where r: "findById (requests s) rid = Some r"
    and rq: "requests ?s' = findByIdAndUpdate (requests s) rid f"
    and f: "\<And>q. r_requester (f q) = r_requester q \<and> r_owner (f q) = r_owner q"
    and bk: "books ?s' = updateBooks r st (books s)"
    and us: "users ?s' = users s"
    by auto
  have rp: "findById (users s) (r_requester r) \<noteq> None \<and> findById (users s) (r_owner r) \<noteq> None"
    using assms(2) findById_in_set [OF r] by (auto simp: partiesAreUsers_def)
  have 1: "findById (users s) (b_owner b') \<noteq> None" if "(k, b') \<in> set (books ?s')" for k b'
    using set_updateBooks_owner [of k b' r st "books s"] that assms(1) rp
    unfolding bk by (auto simp: ownersAreUsers_def)
  have 2: "findById (users s) (r_requester q) \<noteq> None \<and> findById (users s) (r_owner q) \<noteq> None"
    if "(k, q) \<in> set (requests ?s')" for k q
  proof -
    from that set_findByIdAndUpdate [of k q "requests s" rid f]
    consider "(k, q) \<in> set (requests s)" | "q = f r"
      using r unfolding rq by auto
    then show ?thesis
    proof cases
      case 1
      then show ?thesis using assms(2) by (auto simp: partiesAreUsers_def)
    next
      case 2
      then show ?thesis using rp f by simp
    qed
  qed
  from 1 2 show ?thesis by (auto simp: ownersAreUsers_def partiesAreUsers_def us)
qed

lemma usersInvariant_rateRequest:
  assumes "ownersAreUsers s" and "partiesAreUsers s"
  shows "ownersAreUsers (snd (rateRequest s user rid rating review))
       \<and> partiesAreUsers (snd (rateRequest s user rid rating review))"
proof -
  let ?s' = "snd (rateRequest s user rid rating review)"
  from rateRequest_store [of s user rid rating review]
  obtain x where bk: "books ?s' = books s"
    and rq: "requests ?s' = requests s
             \<or> requests ?s' = findByIdAndUpdate (requests s) rid (\<lambda>q. q\<lparr>r_rating := x\<rparr>)"
    by blast
  from rateRequest_users [of s user rid rating review]
  have us: "findById (users ?s') k = None \<longleftrightarrow> findById (users s) k = None" for k
    using findById_kept by metis
  have "findById (users s) (r_requester q) \<noteq> None \<and> findById (users s) (r_owner q) \<noteq> None"
    if "(k, q) \<in> set (requests ?s')" for k q
    using rq
  proof
    assume "requests ?s' = requests s"
    then show ?thesis using that assms(2) by (auto simp: partiesAreUsers_def)
  next
    assume u: "requests ?s' = findByIdAndUpdate (requests s) rid (\<lambda>q. q\<lparr>r_rating := x\<rparr>)"
    from that set_findByIdAndUpdate [of k q "requests s" rid "\<lambda>q. q\<lparr>r_rating := x\<rparr>"]
    consider "(k, q) \<in> set (requests s)"
      | d where "findById (requests s) rid = Some d" "q = d\<lparr>r_rating := x\<rparr>"
      unfolding u by auto
    then show ?thesis
    proof cases
      case 1
      then show ?thesis using assms(2) by (auto simp: partiesAreUsers_def)
    next
      case 2
      then show ?thesis
        using assms(2) findById_in_set [of "requests s" rid d] by (auto simp: partiesAreUsers_def)
    qed
  qed
  then show ?thesis using assms(1)
    by (auto simp: ownersAreUsers_def partiesAreUsers_def bk us)
qed

lemma usersInvariant_deleteRequest:
  assumes "ownersAreUsers s" and "partiesAreUsers s"
  shows "ownersAreUsers (snd (deleteRequest s user rid))
       \<and> partiesAreUsers (snd (deleteRequest s user rid))"
proof -
  have "users (snd (deleteRequest s user rid)) = users s"
    by (auto simp: deleteRequest_def split: option.splits if_splits)
  then show ?thesis using assms deleteRequest_store [of s user rid]
    by (auto simp: ownersAreUsers_def partiesAreUsers_def)
qed

lemma served_users: "served s \<Longrightarrow> ownersAreUsers s \<and> partiesAreUsers s"
proof (induction rule: served.induct)
  case (opened s)
  then show ?case by (simp add: partiesAreUsers_def)
next
  case (asked s user book type offeredBooks)
  then show ?case by (simp add: usersInvariant_createRequest)
next
  case (moved s user rid status now)
  then show ?case by (simp add: usersInvariant_updateRequest)
next
  case (judged s user rid rating review)
  then show ?case by (simp add: usersInvariant_rateRequest)
next
  case (dropped s user rid)
  then show ?case by (simp add: usersInvariant_deleteRequest)
qed

lemma served_parties:
  assumes "served s" and "findById (requests s) i = Some r"
  shows "findById (users s) (r_requester r) \<noteq> None \<and> findById (users s) (r_owner r) \<noteq> None"
  using served_users [OF assms(1)] findById_in_set [OF assms(2)]
  by (auto simp: partiesAreUsers_def)

text \<open>
  Claim C9, as amended. \<open>getRequestById\<close> never changes the store. It answers 500 for an
  id that does not cast to an ObjectId, and 404 for an id that casts and names no
  request. For a request of a store that the lifecycle routes reach, or of any store in
  which the requester and the owner of the request are users, it answers 200 with the
  request when the caller is one of the two, and 403 for every other caller.
\<close>

theorem getRequestById_parties_only:
  "snd (getRequestById s user rid) = s
   \<and> (rid = Uncastable \<longrightarrow> fst (getRequestById s user rid) = ServerError)
   \<and> (\<forall>i. rid = ObjectId i \<and> findById (requests s) i = None \<longrightarrow>
        fst (getRequestById s user rid) = Failure 404 ''Request not found'')
   \<and> (\<forall>i r. rid = ObjectId i \<and> findById (requests s) i = Some r
          \<and> (served s
              \<or> findById (users s) (r_requester r) \<noteq> None
                \<and> findById (users s) (r_owner r) \<noteq> None) \<longrightarrow>
        fst (getRequestById s user rid)
          = (if user = r_requester r \<or> user = r_owner r then Success 200 r
             else Failure 403 ''Not authorized to view this request''))"
proof (intro conjI allI impI)
  show "snd (getRequestById s user rid) = s"
    by (auto simp: getRequestById_def split: option.splits idParam.splits)
  show "fst (getRequestById s user rid) = ServerError" if "rid = Uncastable"
    using that by (simp add: getRequestById_def)
  show "fst (getRequestById s user rid) = Failure 404 ''Request not found''"
    if "rid = ObjectId i \<and> findById (requests s) i = None" for i
    using that by (simp add: getRequestById_def)
  show "fst (getRequestById s user rid)
          = (if user = r_requester r \<or> user = r_owner r then Success 200 r
             else Failure 403 ''Not authorized to view this request'')"
    if a: "rid = ObjectId i \<and> findById (requests s) i = Some r
          \<and> (served s
              \<or> findById (users s) (r_requester r) \<noteq> None
                \<and> findById (users s) (r_owner r) \<noteq> None)" for i r
  proof -
    have "findById (users s) (r_requester r) \<noteq> None \<and> findById (users s) (r_owner r) \<noteq> None"
      using a served_parties [of s i r] by blast
    then show ?thesis using a
      by (auto simp: getRequestById_def populate_def split: option.splits)
  qed
qed

text \<open>
  The theorem at the example store: Dan is refused, Alice reads the request, the id 5
  is not found, and an id that does not cast is answered 500.
\<close>

theorem getRequestById_parties_only_witness:
  "getRequestById (exStore Free ''pending'' Available) 3 (ObjectId 1)
     = (Failure 403 ''Not authorized to view this request'', exStore Free ''pending'' Available)
   \<and> getRequestById (exStore Free ''pending'' Available) 1 (ObjectId 1)
     = (Success 200 (exRequest Free ''pending''), exStore Free ''pending'' Available)
   \<and> getRequestById (exStore Free ''pending'' Available) 1 (ObjectId 5)
     = (Failure 404 ''Request not found'', exStore Free ''pending'' Available)
   \<and> getRequestById (exStore Free ''pending'' Available) 1 Uncastable
     = (ServerError, exStore Free ''pending'' Available)"
proof -
  let ?s = "exStore Free ''pending'' Available"
  have r: "findById (requests ?s) 1 = Some (exRequest Free ''pending'')" by code_simp
  have n: "findById (requests ?s) 5 = None" by code_simp
  have u: "findById (users ?s) (r_requester (exRequest Free ''pending'')) \<noteq> None"
    "findById (users ?s) (r_owner (exRequest Free ''pending'')) \<noteq> None"
    by code_simp+
  have k: "r_requester (exRequest Free ''pending'') = 2" "r_owner (exRequest Free ''pending'') = 1"
    by (simp_all add: exRequest_def)
  have a: "getRequestById ?s 3 (ObjectId 1)
             = (Failure 403 ''Not authorized to view this request'', ?s)"
    using getRequestById_parties_only [of ?s 3 "ObjectId 1"] r u k
    by (simp add: prod_eq_iff)
  have b: "getRequestById ?s 1 (ObjectId 1) = (Success 200 (exRequest Free ''pending''), ?s)"
    using getRequestById_parties_only [of ?s 1 "ObjectId 1"] r u k
    by (simp add: prod_eq_iff)
  have c: "getRequestById ?s 1 (ObjectId 5) = (Failure 404 ''Request not found'', ?s)"
    using getRequestById_parties_only [of ?s 1 "ObjectId 5"] n
    by (simp add: prod_eq_iff)
  have d: "getRequestById ?s 1 Uncastable = (ServerError, ?s)"
    using getRequestById_parties_only [of ?s 1 Uncastable]
    by (simp add: prod_eq_iff)
  from a b c d show ?thesis by simp
qed

text \<open>
  Claim C9 as stated fails: an id of the URL that does not cast to an ObjectId names no
  request, and the answer is 500, not 404.
\<close>

theorem getRequestById_uncastable_id_counterexample:
  "getRequestById (exStore Free ''pending'' Available) 1 Uncastable
     = (ServerError, exStore Free ''pending'' Available)"
  by code_simp

section \<open>C10: deleteBook is a soft delete\<close>

text \<open>
  Claim C10, as amended. When the owner of a book calls \<open>deleteBook\<close> and some pending
  request has the book as its target, the call answers 400 and changes nothing. When no
  pending request has the book as its target, the call answers 200; the book stays in
  the collection, inactive and not available, with its other fields as they were, and
  no other book, no request and no user is changed. A pending exchange that only offers
  the book does not count.
\<close>

theorem deleteBook_soft_delete:
  assumes "findById (books s) bid = Some b" and "b_owner b = user"
  shows "(pendingTarget s bid \<longrightarrow>
            deleteBook s user bid = (Failure 400 ''Cannot delete book with pending requests'', s))
       \<and> (\<not> pendingTarget s bid \<longrightarrow>
            fst (deleteBook s user bid) = Success 200 ()
            \<and> findById (books (snd (deleteBook s user bid))) bid
                = Some (b\<lparr>b_isActive := False, b_status := NotAvailable\<rparr>)
            \<and> map fst (books (snd (deleteBook s user bid))) = map fst (books s)
            \<and> (\<forall>k. k \<noteq> bid \<longrightarrow>
                  findById (books (snd (deleteBook s user bid))) k = findById (books s) k)
            \<and> requests (snd (deleteBook s user bid)) = requests s
            \<and> users (snd (deleteBook s user bid)) = users s)"
proof -
  have p: "0 < countDocuments (requests s) (\<lambda>r. r_book r = bid \<and> r_status r = ''pending'')
           \<longleftrightarrow> pendingTarget s bid"
    unfolding countDocuments_positive pendingTarget_def ..
  show ?thesis
  proof (cases "pendingTarget s bid")
    case True
    then show ?thesis using assms p by (simp add: deleteBook_def)
  next
    case False
    then show ?thesis using assms p
      by (simp add: deleteBook_def findById_findByIdAndUpdate keys_findByIdAndUpdate)
  qed
qed

text \<open>
  The theorem at the example store: Alice cannot delete the book 10 while Carol's
  request for it is pending; once the request is rejected the book is marked inactive
  and not available.
\<close>

theorem deleteBook_soft_delete_witness:
  "deleteBook (exStore Free ''pending'' Available) 1 10
     = (Failure 400 ''Cannot delete book with pending requests'', exStore Free ''pending'' Available)
   \<and> deleteBook (exStore Free ''rejected'' Available) 1 10
     = (Success 200 (),
        \<lparr>users = exUsers,
         books = [(10, \<lparr>b_title = ''Dune'', b_owner = 1, b_status = NotAvailable, b_isActive = False\<rparr>),
                  (11, \<lparr>b_title = ''Emma'', b_owner = 2, b_status = Available, b_isActive = True\<rparr>)],
         requests = [(1, exRequest Free ''rejected'')]\<rparr>)
   \<and> findById (books (snd (deleteBook (exStore Free ''rejected'' Available) 1 10))) 10
     = Some \<lparr>b_title = ''Dune'', b_owner = 1, b_status = NotAvailable, b_isActive = False\<rparr>"
proof -
  let ?b = "\<lparr>b_title = ''Dune'', b_owner = 1, b_status = Available, b_isActive = True\<rparr>"
  have b1: "findById (books (exStore Free ''pending'' Available)) 10 = Some ?b" by code_simp
  have b2: "findById (books (exStore Free ''rejected'' Available)) 10 = Some ?b" by code_simp
  have o: "b_owner ?b = 1" by simp
  have p1: "pendingTarget (exStore Free ''pending'' Available) 10" by code_simp
  have p2: "\<not> pendingTarget (exStore Free ''rejected'' Available) 10" by code_simp
  have d: "deleteBook (exStore Free ''rejected'' Available) 1 10
     = (Success 200 (),
        \<lparr>users = exUsers,
         books = [(10, \<lparr>b_title = ''Dune'', b_owner = 1, b_status = NotAvailable, b_isActive = False\<rparr>),
                  (11, \<lparr>b_title = ''Emma'', b_owner = 2, b_status = Available, b_isActive = True\<rparr>)],
         requests = [(1, exRequest Free ''rejected'')]\<rparr>)"
    by code_simp
  from deleteBook_soft_delete [OF b1 o] p1
  have 1: "deleteBook (exStore Free ''pending'' Available) 1 10
     = (Failure 400 ''Cannot delete book with pending requests'', exStore Free ''pending'' Available)"
    by simp
  from deleteBook_soft_delete [OF b2 o] p2
  have 2: "findById (books (snd (deleteBook (exStore Free ''rejected'' Available) 1 10))) 10
     = Some \<lparr>b_title = ''Dune'', b_owner = 1, b_status = NotAvailable, b_isActive = False\<rparr>"
    by simp
  from 1 2 d show ?thesis by simp
qed

text \<open>
  Claim C10 as stated fails: Carol's pending exchange offers her book 11, and Carol
  deletes the book 11 with success.
\<close>

theorem deleteBook_offered_in_pending_counterexample:
  "findById (requests (exStore Exchange ''pending'' Available)) 1
     = Some (exRequest Exchange ''pending'')
   \<and> r_status (exRequest Exchange ''pending'') = ''pending''
   \<and> r_offeredBooks (exRequest Exchange ''pending'') = Some 11
   \<and> deleteBook (exStore Exchange ''pending'' Available) 2 11
     = (Success 200 (),
        \<lparr>users = exUsers,
         books = [(10, \<lparr>b_title = ''Dune'', b_owner = 1, b_status = Available, b_isActive = True\<rparr>),
                  (11, \<lparr>b_title = ''Emma'', b_owner = 2, b_status = NotAvailable, b_isActive = False\<rparr>)],
         requests = [(1, exRequest Exchange ''pending'')]\<rparr>)"
  by code_simp

end
